theory Spec2Isabelle
  imports Complex_Main "HOL-Library.Multiset"
begin

text \<open>
  A model of the two scripts of the repository that carry its logic.
  \<^verbatim>\<open>src/IMO_to_VesselID/IMO_TO_Vessel_id.py\<close> looks a vessel up by its IMO number,
  merges the intervals of its fishing events into total hours and classifies it;
  \<^verbatim>\<open>src/scripts/IMO_TO_SSID.py\<close> resolves a vessel's radio identifier through a local
  database and a cascade of registry searches. Network calls, the standard library's
  \<^verbatim>\<open>strptime\<close> and the order of \<^verbatim>\<open>list(set(...))\<close> are parameters of the model;
  exceptions are result values; lists and dictionaries that the code updates in place are
  passed in and returned.
\<close>

section \<open>Interval merging (IMO\_TO\_Vessel\_id.py)\<close>

text \<open>
  A parsed timestamp is a naive \<^verbatim>\<open>datetime\<close>: a point on a line with microsecond
  resolution. It is modelled as the integer number of microseconds since a fixed origin, so
  that comparison is \<open>\<le>\<close> and the difference of two timestamps is a \<^verbatim>\<open>timedelta\<close> in
  microseconds. An interval is the tuple \<^verbatim>\<open>(start, end)\<close>.
\<close>

type_synonym timestamp = int
type_synonym interval = "timestamp \<times> timestamp"

text \<open>
  The \<^verbatim>\<open>for current in intervals[1:]\<close> loop of \<^verbatim>\<open>merge_intervals\<close>. The list
  \<open>merged\<close> is never empty inside the loop; \<^verbatim>\<open>merged[-1] = v\<close> replaces its last element
  and \<^verbatim>\<open>merged.append(current)\<close> extends it.
\<close>

fun merge_loop :: "interval list \<Rightarrow> interval list \<Rightarrow> interval list" where
  "merge_loop merged [] = merged"
| "merge_loop merged (current # rest) =
     (let lst = last merged in
      if fst current \<le> snd lst
      then merge_loop (butlast merged @ [(fst lst, max (snd lst) (snd current))]) rest
      else merge_loop (merged @ [current]) rest)"

text \<open>
  \<^verbatim>\<open>merge_intervals(intervals)\<close>. The call \<^verbatim>\<open>intervals.sort(key=lambda x: x[0])\<close>
  sorts the caller's list object in place (a stable sort on the start), so the model returns
  two lists: the value returned by the function, and the contents of the argument list after
  the call.
\<close>

definition merge_intervals :: "interval list \<Rightarrow> interval list \<times> interval list" where
  "merge_intervals intervals =
     (if intervals = [] then ([], intervals)
      else (let sorted_intervals = sort_key fst intervals
            in (merge_loop [hd sorted_intervals] (tl sorted_intervals), sorted_intervals)))"

text \<open>The time points an interval covers, and those a list of intervals covers.\<close>

definition covered :: "interval list \<Rightarrow> timestamp set" where
  "covered xs = (\<Union>(s, e) \<in> set xs. {s..e})"

text \<open>
  Proof-level view of the loop: the last element of \<open>merged\<close> is carried as an
  accumulator. It is shown below to compute the same list as \<open>merge_loop\<close>.
\<close>

fun scan :: "interval \<Rightarrow> interval list \<Rightarrow> interval list" where
  "scan acc [] = [acc]"
| "scan acc (cur # rest) =
     (if fst cur \<le> snd acc then scan (fst acc, max (snd acc) (snd cur)) rest
      else acc # scan cur rest)"

definition well_formed :: "interval list \<Rightarrow> bool" where
  "well_formed xs = list_all (\<lambda>iv. fst iv \<le> snd iv) xs"


section \<open>JSON values and Python floats\<close>

text \<open>
  A registry response and an activity event are whatever \<^verbatim>\<open>response.json()\<close>
  produced, and the code inspects their shape at run time (\<^verbatim>\<open>isinstance\<close>, truthiness,
  \<^verbatim>\<open>.get\<close>), so they are modelled as JSON values. A dictionary is an association list
  read with \<open>map_of\<close>. Of a number only its truthiness matters here.
\<close>

datatype json =
    JNull
  | JBool bool
  | JNum int
  | JStr string
  | JList "json list"
  | JDict "(string \<times> json) list"

fun truthy :: "json \<Rightarrow> bool" where
  "truthy JNull = False"
| "truthy (JBool b) = b"
| "truthy (JNum n) = (n \<noteq> 0)"
| "truthy (JStr s) = (s \<noteq> [])"
| "truthy (JList xs) = (xs \<noteq> [])"
| "truthy (JDict kvs) = (kvs \<noteq> [])"

text \<open>
  \<^verbatim>\<open>d.get(k)\<close> and \<^verbatim>\<open>d.get(k, default)\<close> on a dictionary. On any other value the
  attribute \<^verbatim>\<open>get\<close> does not exist and Python raises; that is the result \<open>None\<close> of
  \<open>py_get\<close>.
\<close>

definition dict_get :: "(string \<times> json) list \<Rightarrow> string \<Rightarrow> json" where
  "dict_get kvs k = (case map_of kvs k of None \<Rightarrow> JNull | Some v \<Rightarrow> v)"

definition dict_get_default :: "(string \<times> json) list \<Rightarrow> string \<Rightarrow> json \<Rightarrow> json" where
  "dict_get_default kvs k dflt = (case map_of kvs k of None \<Rightarrow> dflt | Some v \<Rightarrow> v)"

fun py_get :: "json \<Rightarrow> string \<Rightarrow> json option" where
  "py_get (JDict kvs) k = Some (dict_get kvs k)"
| "py_get _ k = None"

text \<open>
  \<^verbatim>\<open>x[0]\<close> on a truthy value: the first element of a list, the first character of a
  string; a dictionary has no key \<^verbatim>\<open>0\<close> and the other values are not subscriptable, so
  Python raises.
\<close>

fun py_first :: "json \<Rightarrow> json option" where
  "py_first (JList (x # xs)) = Some x"
| "py_first (JStr (c # cs)) = Some (JStr [c])"
| "py_first _ = None"

text \<open>
  A Python \<^verbatim>\<open>float\<close> is an IEEE 754 double; it is modelled by the real number it
  denotes. \<open>round_double\<close> is the rounding of a real to the nearest double, ties to the
  even significand: 53 significant bits, and a fixed spacing of \<open>2\<^sup>-\<^sup>1\<^sup>0\<^sup>7\<^sup>4\<close> below
  \<open>2\<^sup>-\<^sup>1\<^sup>0\<^sup>2\<^sup>2\<close>. The binary exponent is found by halving or doubling; 2200 steps
  cover the whole range of doubles. Overflow to infinity is not modelled: the numbers
  rounded here are differences of datetimes in seconds and sums of them, below
  \<open>10\<^sup>1\<^sup>2\<close>.
\<close>

definition ties_to_even :: "real \<Rightarrow> int" where
  "ties_to_even m =
     (let n = \<lfloor>m\<rfloor>; f = m - of_int n in
      if f < 1 / 2 then n else if 1 / 2 < f then n + 1 else if even n then n else n + 1)"

fun binary_exponent :: "nat \<Rightarrow> real \<Rightarrow> int" where
  "binary_exponent 0 x = 0"
| "binary_exponent (Suc k) x =
     (if 2 \<le> x then binary_exponent k (x / 2) + 1
      else if x < 1 then binary_exponent k (x * 2) - 1
      else 0)"

definition pow2 :: "int \<Rightarrow> real" where
  "pow2 e = (if 0 \<le> e then 2 ^ nat e else 1 / 2 ^ nat (- e))"

definition round_double :: "real \<Rightarrow> real" where
  "round_double x =
     (if x = 0 then 0
      else (let e = max (binary_exponent 2200 \<bar>x\<bar>) (- 1022);
                ulp = pow2 (e - 52)
            in sgn x * of_int (ties_to_even (\<bar>x\<bar> / ulp)) * ulp))"

text \<open>
  The builtin \<^verbatim>\<open>sum\<close> starts from the integer 0 and returns it for an empty sequence.
  How it adds floats belongs to the interpreter, not to the repository, and differs between
  versions (CPython before 3.12 adds left to right, rounding each partial sum; later
  versions carry a compensation term), so the result on a non-empty list of floats is the
  parameter \<open>float_sum\<close>.
\<close>

definition py_sum :: "(real list \<Rightarrow> real) \<Rightarrow> real list \<Rightarrow> real" where
  "py_sum float_sum xs = (if xs = [] then 0 else float_sum xs)"


section \<open>Timestamps and total hours (IMO\_TO\_Vessel\_id.py)\<close>

text \<open>
  \<^verbatim>\<open>datetime.strptime(ts, fmt)\<close> belongs to the Python standard library, not to the
  repository. On a string it is a parameter of the model: a function of the text and the
  format that either returns a timestamp or raises \<^verbatim>\<open>ValueError\<close>. On a value that is
  not a string it raises \<^verbatim>\<open>TypeError\<close>. The exceptions that the code does not catch
  are the values of \<open>exn\<close>.
\<close>

datatype py_error = ValueError

datatype exn = TypeError | AttributeError

type_synonym strptime_fn = "string \<Rightarrow> string \<Rightarrow> py_error + timestamp"

definition fmt_millis :: string where
  "fmt_millis = ''%Y-%m-%dT%H:%M:%S.%fZ''"

definition fmt_seconds :: string where
  "fmt_seconds = ''%Y-%m-%dT%H:%M:%SZ''"

text \<open>
  \<^verbatim>\<open>parse_timestamp(ts)\<close>: the format with a fractional part first, the format without
  it as the fallback; both \<^verbatim>\<open>ValueError\<close>s are caught and the result is then
  \<^verbatim>\<open>None\<close>. Only \<^verbatim>\<open>ValueError\<close> is caught: the \<^verbatim>\<open>TypeError\<close> of the first
  \<^verbatim>\<open>strptime\<close> on a value that is not a string leaves the function.
\<close>

definition parse_text :: "strptime_fn \<Rightarrow> string \<Rightarrow> timestamp option" where
  "parse_text strptime ts =
     (case strptime ts fmt_millis of
        Inr t \<Rightarrow> Some t
      | Inl ValueError \<Rightarrow>
          (case strptime ts fmt_seconds of
             Inr t \<Rightarrow> Some t
           | Inl ValueError \<Rightarrow> None))"

fun parse_timestamp :: "strptime_fn \<Rightarrow> json \<Rightarrow> exn + timestamp option" where
  "parse_timestamp strptime (JStr ts) = Inr (parse_text strptime ts)"
| "parse_timestamp strptime _ = Inl TypeError"

text \<open>
  The body of the \<^verbatim>\<open>for event in events\<close> loop: the interval it appends, if any, or the
  exception that leaves it. \<^verbatim>\<open>event.get\<close> raises \<^verbatim>\<open>AttributeError\<close> on an event
  that is not a dictionary. When both values are truthy, the start is parsed, then the end,
  and only then are the two results tested.
\<close>

definition event_interval :: "strptime_fn \<Rightarrow> json \<Rightarrow> exn + interval option" where
  "event_interval strptime event =
     (case py_get event ''start'' of
        None \<Rightarrow> Inl AttributeError
      | Some start_str \<Rightarrow>
          (case py_get event ''end'' of
             None \<Rightarrow> Inl AttributeError
           | Some end_str \<Rightarrow>
               if truthy start_str \<and> truthy end_str
               then (case parse_timestamp strptime start_str of
                       Inl e \<Rightarrow> Inl e
                     | Inr start \<Rightarrow>
                         (case parse_timestamp strptime end_str of
                            Inl e \<Rightarrow> Inl e
                          | Inr end' \<Rightarrow>
                              (case start of
                                 None \<Rightarrow> Inr None
                               | Some s \<Rightarrow>
                                   (case end' of
                                      None \<Rightarrow> Inr None
                                    | Some t \<Rightarrow> Inr (Some (s, t))))))
               else Inr None))"

fun collect_intervals ::
  "strptime_fn \<Rightarrow> json list \<Rightarrow> interval list \<Rightarrow> exn + interval list" where
  "collect_intervals strptime [] intervals = Inr intervals"
| "collect_intervals strptime (event # rest) intervals =
     (case event_interval strptime event of
        Inl e \<Rightarrow> Inl e
      | Inr None \<Rightarrow> collect_intervals strptime rest intervals
      | Inr (Some iv) \<Rightarrow> collect_intervals strptime rest (intervals @ [iv]))"

text \<open>
  \<^verbatim>\<open>(end - start).total_seconds()\<close> is the difference in microseconds divided by
  \<open>10\<^sup>6\<close>, an integer division whose result is the nearest float. The seconds are
  summed by the builtin \<^verbatim>\<open>sum\<close> and the sum is divided by \<^verbatim>\<open>3600.0\<close>, a float
  division.
\<close>

definition total_seconds :: "interval \<Rightarrow> real" where
  "total_seconds iv = round_double (real_of_int (snd iv - fst iv) / 1000000)"

definition calculate_total_hours ::
  "strptime_fn \<Rightarrow> (real list \<Rightarrow> real) \<Rightarrow> json list \<Rightarrow> exn + real" where
  "calculate_total_hours strptime float_sum events =
     (case collect_intervals strptime events [] of
        Inl e \<Rightarrow> Inl e
      | Inr intervals \<Rightarrow>
          (let merged_intervals = fst (merge_intervals intervals);
               total_seconds' = py_sum float_sum (map total_seconds merged_intervals)
           in Inr (round_double (total_seconds' / 3600))))"


section \<open>Vessel details from a registry response (IMO\_TO\_Vessel\_id.py)\<close>

text \<open>The dictionary \<^verbatim>\<open>result\<close> built by \<^verbatim>\<open>get_vessel_details\<close>.\<close>

record details =
  d_imo :: string
  d_vessel_id :: json
  d_name :: json
  d_flag :: json

text \<open>
  The block under \<^verbatim>\<open>if vessel.get("registryInfo")\<close>, applied to a truthy
  \<^verbatim>\<open>reg_info\<close>: flag and vessel id are taken from the first registry sub-record.
\<close>

fun from_registry :: "json \<Rightarrow> details \<Rightarrow> details option" where
  "from_registry (JList (r # rs)) result =
     (case py_get r ''flag'' of
        None \<Rightarrow> None
      | Some f \<Rightarrow>
          (case py_get r ''id'' of
             None \<Rightarrow> None
           | Some i \<Rightarrow> Some (result\<lparr>d_flag := f, d_vessel_id := i\<rparr>)))"
| "from_registry (JDict kvs) result =
     Some (result\<lparr>d_flag := dict_get kvs ''flag'', d_vessel_id := dict_get kvs ''id''\<rparr>)"
| "from_registry _ result = Some result"

text \<open>
  The three assignments made from one self-reported sub-record: the vessel id and the flag
  only where the result has none yet, the name always.
\<close>

definition fill_self_reported :: "(string \<times> json) list \<Rightarrow> details \<Rightarrow> details" where
  "fill_self_reported kvs result =
     (let r1 = (if \<not> truthy (d_vessel_id result)
                then result\<lparr>d_vessel_id := dict_get kvs ''id''\<rparr> else result);
          r2 = r1\<lparr>d_name := dict_get_default kvs ''shipname'' (d_name r1)\<rparr>;
          r3 = (if \<not> truthy (d_flag r2)
                then r2\<lparr>d_flag := dict_get kvs ''flag''\<rparr> else r2)
      in r3)"

fun from_self_reported :: "json \<Rightarrow> details \<Rightarrow> details option" where
  "from_self_reported (JList (JDict kvs # ss)) result = Some (fill_self_reported kvs result)"
| "from_self_reported (JList (s # ss)) result = None"
| "from_self_reported (JDict kvs) result = Some (fill_self_reported kvs result)"
| "from_self_reported _ result = Some result"

definition vessel_to_details :: "string \<Rightarrow> json \<Rightarrow> details option" where
  "vessel_to_details imo vessel =
     (let result = \<lparr>d_imo = imo, d_vessel_id = JNull, d_name = JStr ''Unknown'', d_flag = JNull\<rparr> in
      case py_get vessel ''registryInfo'' of
        None \<Rightarrow> None
      | Some reg_info \<Rightarrow>
          (case (if truthy reg_info then from_registry reg_info result else Some result) of
             None \<Rightarrow> None
           | Some result1 \<Rightarrow>
               (case py_get vessel ''selfReportedInfo'' of
                  None \<Rightarrow> None
                | Some srep \<Rightarrow>
                    (case (if truthy srep then from_self_reported srep result1 else Some result1) of
                       None \<Rightarrow> None
                     | Some result2 \<Rightarrow>
                         (case py_get vessel ''id'' of
                            None \<Rightarrow> None
                          | Some vid \<Rightarrow>
                              if \<not> truthy (d_vessel_id result2) \<and> truthy vid
                              then Some (result2\<lparr>d_vessel_id := vid\<rparr>)
                              else Some result2)))))"

text \<open>
  \<^verbatim>\<open>get_vessel_details(imo)\<close>. The lookup \<^verbatim>\<open>_fetch_vessel_data\<close> is imported from a
  module outside the repository's sources and is a parameter: it returns a JSON value or
  raises (\<open>None\<close>). Every exception raised inside the \<^verbatim>\<open>try\<close> block is caught and the
  function then returns \<^verbatim>\<open>None\<close>.
\<close>

definition get_vessel_details :: "(string \<Rightarrow> json option) \<Rightarrow> string \<Rightarrow> details option" where
  "get_vessel_details fetch_vessel_data imo =
     (case fetch_vessel_data imo of
        None \<Rightarrow> None
      | Some data \<Rightarrow>
          if \<not> truthy data then None
          else (case py_get data ''entries'' of
                  None \<Rightarrow> None
                | Some entries \<Rightarrow>
                    if \<not> truthy entries then None
                    else (case py_first entries of
                            None \<Rightarrow> None
                          | Some vessel \<Rightarrow> vessel_to_details imo vessel)))"


section \<open>Fetching events and classifying a vessel (IMO\_TO\_Vessel\_id.py)\<close>

text \<open>
  The events endpoint is a parameter: \<^verbatim>\<open>session.get(url, params=params)\<close> answers a
  request either with a status other than 200 or with a page, of which the loop reads the
  \<^verbatim>\<open>entries\<close> and whether the key \<^verbatim>\<open>nextOffset\<close> is present. Of the request only the
  vessel, the two dates and the offset vary.
\<close>

record events_params =
  p_vessel :: json
  p_start_date :: string
  p_end_date :: string
  p_offset :: nat

datatype events_response = Status_Not_200 | Page "json list" bool

text \<open>
  The \<^verbatim>\<open>while True\<close> loop of \<^verbatim>\<open>fetch_fishing_events\<close>. Nothing bounds the number of
  pages, so the loop need not end: the result \<open>None\<close> is "does not return". Besides the
  events the model returns the list of requests sent, in order.
\<close>

partial_function (option) fetch_loop ::
  "(events_params \<Rightarrow> events_response) \<Rightarrow> events_params \<Rightarrow> json list \<Rightarrow> events_params list
     \<Rightarrow> (json list \<times> events_params list) option" where
  "fetch_loop session_get params all_events sent =
     (case session_get params of
        Status_Not_200 \<Rightarrow> Some (all_events, sent @ [params])
      | Page events has_next \<Rightarrow>
          if events = [] then Some (all_events, sent @ [params])
          else if \<not> has_next \<or> length events = 0
               then Some (all_events @ events, sent @ [params])
               else fetch_loop session_get
                      (params\<lparr>p_offset := p_offset params + length events\<rparr>)
                      (all_events @ events) (sent @ [params]))"

definition fetch_fishing_events ::
  "(events_params \<Rightarrow> events_response) \<Rightarrow> json \<Rightarrow> string \<Rightarrow> string
     \<Rightarrow> (json list \<times> events_params list) option" where
  "fetch_fishing_events session_get vessel_id start_date end_date =
     fetch_loop session_get
       \<lparr>p_vessel = vessel_id, p_start_date = start_date, p_end_date = end_date, p_offset = 0\<rparr>
       [] []"

text \<open>The row returned by \<^verbatim>\<open>process_vessel\<close>.\<close>

record report =
  r_imo :: string
  r_vessel_name :: json
  r_vessel_id :: json
  r_flag :: json
  r_total_fishing_hours :: "real option"
  r_classification :: string

text \<open>
  \<^verbatim>\<open>process_vessel(imo, start_date, end_date, fishing_hours_threshold)\<close>. The result is
  \<open>None\<close> when the event loop does not return; otherwise it is the exception that leaves
  the function, or the returned row together with the requests sent to the events endpoint.
  The threshold is a Python number, modelled by the real it denotes; comparing it with a
  float is exact.
\<close>

definition process_vessel ::
  "(string \<Rightarrow> json option) \<Rightarrow> (events_params \<Rightarrow> events_response) \<Rightarrow> strptime_fn
     \<Rightarrow> (real list \<Rightarrow> real) \<Rightarrow> string \<Rightarrow> string \<Rightarrow> string \<Rightarrow> real
     \<Rightarrow> (exn + report \<times> events_params list) option" where
  "process_vessel fetch_vessel_data session_get strptime float_sum imo start_date end_date
       fishing_hours_threshold =
     (case get_vessel_details fetch_vessel_data imo of
        None \<Rightarrow>
          Some (Inr (\<lparr>r_imo = imo, r_vessel_name = JNull, r_vessel_id = JNull, r_flag = JNull,
                       r_total_fishing_hours = None, r_classification = ''No metadata''\<rparr>, []))
      | Some details \<Rightarrow>
          (let flag = d_flag details in
           if flag \<noteq> JStr ''SEN''
           then Some (Inr (\<lparr>r_imo = imo, r_vessel_name = d_name details,
                             r_vessel_id = d_vessel_id details, r_flag = flag,
                             r_total_fishing_hours = None,
                             r_classification = ''Suspect (Non-Senegalese flag)''\<rparr>, []))
           else (let vessel_id = d_vessel_id details in
                 if \<not> truthy vessel_id
                 then Some (Inr (\<lparr>r_imo = imo, r_vessel_name = d_name details,
                                   r_vessel_id = JNull, r_flag = flag,
                                   r_total_fishing_hours = None,
                                   r_classification = ''No vessel_id''\<rparr>, []))
                 else (case fetch_fishing_events session_get vessel_id start_date end_date of
                         None \<Rightarrow> None
                       | Some (events, sent) \<Rightarrow>
                           (case calculate_total_hours strptime float_sum events of
                              Inl e \<Rightarrow> Some (Inl e)
                            | Inr total_hours \<Rightarrow>
                                Some (Inr (\<lparr>r_imo = imo, r_vessel_name = d_name details,
                                             r_vessel_id = d_vessel_id details, r_flag = flag,
                                             r_total_fishing_hours = Some total_hours,
                                             r_classification =
                                               (if total_hours < fishing_hours_threshold
                                                then ''Suspect (Low fishing effort)''
                                                else ''Genuine'')\<rparr>, sent)))))))"


section \<open>Registry search stages (IMO\_TO\_SSID.py)\<close>

text \<open>
  In this script the values handled are strings or \<^verbatim>\<open>None\<close>; \<open>truthy_str\<close> is their
  truthiness. A sub-record of a response (an element of \<^verbatim>\<open>selfReportedInfo\<close> or
  \<^verbatim>\<open>registryInfo\<close>, or the vessel's own top-level fields) is read with
  \<^verbatim>\<open>info["ssvid"]\<close> and with \<^verbatim>\<open>info.get(k, "")\<close>, which tells an absent key (outer
  \<open>None\<close>) from a null value.
\<close>

type_synonym pyval = "string option"

definition truthy_str :: "string option \<Rightarrow> bool" where
  "truthy_str v = (case v of None \<Rightarrow> False | Some s \<Rightarrow> s \<noteq> [])"

record info =
  i_ssvid :: pyval
  i_shipname :: "pyval option"
  i_imo :: "pyval option"
  i_callsign :: "pyval option"
  i_flag :: "pyval option"

record vessel =
  v_id :: pyval
  v_selfReportedInfo :: "info list"
  v_registryInfo :: "info list"
  v_own :: info

record detail =
  dt_shipname :: pyval
  dt_imo :: pyval
  dt_callsign :: pyval
  dt_flag :: pyval

definition get_or_empty :: "pyval option \<Rightarrow> pyval" where
  "get_or_empty v = (case v of None \<Rightarrow> Some [] | Some x \<Rightarrow> x)"

definition detail_of :: "info \<Rightarrow> detail" where
  "detail_of i = \<lparr>dt_shipname = get_or_empty (i_shipname i), dt_imo = get_or_empty (i_imo i),
                   dt_callsign = get_or_empty (i_callsign i), dt_flag = get_or_empty (i_flag i)\<rparr>"

text \<open>
  \<^verbatim>\<open>if "ssvid" in info and info["ssvid"]\<close>: the identifier is appended and its details
  stored under it.
\<close>

definition note_info ::
  "info \<Rightarrow> string list \<times> (string \<rightharpoonup> detail) \<Rightarrow> string list \<times> (string \<rightharpoonup> detail)" where
  "note_info i st =
     (case i_ssvid i of
        None \<Rightarrow> st
      | Some sv \<Rightarrow> if sv \<noteq> [] then (fst st @ [sv], (snd st)(sv \<mapsto> detail_of i)) else st)"

definition note_vessel ::
  "vessel \<Rightarrow> string list \<times> string list \<times> (string \<rightharpoonup> detail)
     \<Rightarrow> string list \<times> string list \<times> (string \<rightharpoonup> detail)" where
  "note_vessel v st =
     (case st of (ssvids, vessel_ids, vessel_details) \<Rightarrow>
        (let vessel_ids1 = (if truthy_str (v_id v) then vessel_ids @ [the (v_id v)] else vessel_ids);
             st1 = fold note_info (v_selfReportedInfo v) (ssvids, vessel_details);
             st2 = fold note_info (v_registryInfo v) st1;
             st3 = note_info (v_own v) st2
         in (fst st3, vessel_ids1, snd st3)))"

text \<open>
  \<^verbatim>\<open>extract_ssvids_from_response(data)\<close> on the \<^verbatim>\<open>entries\<close> of a response (the empty
  list for a response without entries). \<^verbatim>\<open>list(set(xs))\<close> removes duplicates in an order
  that Python does not specify; that conversion is the parameter \<open>uniq\<close>.
\<close>

definition extract_ssvids_from_response ::
  "(string list \<Rightarrow> string list) \<Rightarrow> vessel list
     \<Rightarrow> string list option \<times> string list option \<times> (string \<rightharpoonup> detail)" where
  "extract_ssvids_from_response uniq entries =
     (if entries = [] then (None, None, Map.empty)
      else (case fold note_vessel entries ([], [], Map.empty) of
              (ssvids, vessel_ids, vessel_details) \<Rightarrow>
                (Some (uniq ssvids), Some (uniq vessel_ids), vessel_details)))"

text \<open>
  A request to the registry search endpoint is its \<^verbatim>\<open>where\<close> clause or its free-text
  \<^verbatim>\<open>query\<close>. The endpoint is a parameter \<open>http\<close>: it answers with the entries of a
  response of status 200, or with \<open>None\<close> for any other status and for every exception raised
  inside the \<^verbatim>\<open>try\<close> block. The trace records each call of a stage function and each
  request it sends.
\<close>

datatype param = Where_clause string | Query string

datatype stage = Combined | Advanced | Basic

datatype call = Invoke stage | Request stage param

type_synonym stage_result = "pyval \<times> pyval \<times> pyval \<times> (string \<rightharpoonup> detail)"

record search_state =
  st_ssvids :: "string list"
  st_vessel_ids :: "string list"
  st_source :: pyval
  st_details :: "string \<rightharpoonup> detail"

definition quoted :: "string \<Rightarrow> string" where
  "quoted s = [CHR 0x22] @ s @ [CHR 0x22]"

text \<open>
  One \<^verbatim>\<open>try\<close> block of \<^verbatim>\<open>search_vessel_basic\<close> and \<^verbatim>\<open>search_vessel_advanced\<close>:
  send the request and, if identifiers are found, extend the lists and set the source.
\<close>

definition attempt ::
  "(param \<Rightarrow> vessel list option) \<Rightarrow> (string list \<Rightarrow> string list) \<Rightarrow> param \<Rightarrow> string
     \<Rightarrow> search_state \<Rightarrow> search_state" where
  "attempt http uniq prm tag st =
     (case http prm of
        None \<Rightarrow> st
      | Some data \<Rightarrow>
          (case extract_ssvids_from_response uniq data of
             (Some found_ssvids, Some found_ids, details) \<Rightarrow>
               if found_ssvids \<noteq> []
               then st\<lparr>st_ssvids := st_ssvids st @ found_ssvids,
                        st_vessel_ids := st_vessel_ids st @ found_ids,
                        st_source := Some tag,
                        st_details := st_details st ++ details\<rparr>
               else st
           | _ \<Rightarrow> st))"

definition initial_state :: search_state where
  "initial_state = \<lparr>st_ssvids = [], st_vessel_ids = [], st_source = None, st_details = Map.empty\<rparr>"

definition first_or_none :: "string list \<Rightarrow> pyval" where
  "first_or_none xs = (case xs of [] \<Rightarrow> None | x # _ \<Rightarrow> Some x)"

definition finish :: "search_state \<Rightarrow> stage_result" where
  "finish st = (first_or_none (st_ssvids st), first_or_none (st_vessel_ids st),
                st_source st, st_details st)"

definition search_vessel_basic ::
  "(param \<Rightarrow> vessel list option) \<Rightarrow> (string list \<Rightarrow> string list) \<Rightarrow> string \<Rightarrow> string
     \<Rightarrow> stage_result \<times> call list" where
  "search_vessel_basic http uniq imo name =
     (let st0 = initial_state;
          (st1, t1) = (if imo \<noteq> []
                       then (attempt http uniq (Query imo) ''GFW-IMO-basic'' st0,
                             [Request Basic (Query imo)])
                       else (st0, []));
          (st2, t2) = (if st_ssvids st1 = [] \<and> name \<noteq> []
                       then (attempt http uniq (Query name) ''GFW-name-basic'' st1,
                             [Request Basic (Query name)])
                       else (st1, []))
      in (finish st2, Invoke Basic # t1 @ t2))"

definition search_vessel_advanced ::
  "(param \<Rightarrow> vessel list option) \<Rightarrow> (string list \<Rightarrow> string list) \<Rightarrow> string \<Rightarrow> string
     \<Rightarrow> stage_result \<times> call list" where
  "search_vessel_advanced http uniq imo name =
     (let st0 = initial_state;
          p1 = Where_clause (''imo = '' @ quoted imo);
          (st1, t1) = (if imo \<noteq> []
                       then (attempt http uniq p1 ''GFW-IMO-advanced'' st0, [Request Advanced p1])
                       else (st0, []));
          p2 = Where_clause (''shipname = '' @ quoted name);
          (st2, t2) = (if st_ssvids st1 = [] \<and> name \<noteq> []
                       then (attempt http uniq p2 ''GFW-name-advanced'' st1, [Request Advanced p2])
                       else (st1, []));
          p3 = Where_clause (''shipname LIKE '' @ quoted (''%'' @ name @ ''%''));
          (st3, t3) = (if st_ssvids st2 = [] \<and> name \<noteq> []
                       then (attempt http uniq p3 ''GFW-name-partial'' st2, [Request Advanced p3])
                       else (st2, []))
      in (finish st3, Invoke Advanced # t1 @ t2 @ t3))"

text \<open>
  \<^verbatim>\<open>search_vessel_combined\<close> needs both inputs. With identifiers found but no vessel id,
  \<^verbatim>\<open>vessel_ids[0]\<close> raises \<^verbatim>\<open>IndexError\<close> inside the \<^verbatim>\<open>try\<close> block and the stage
  returns nothing.
\<close>

definition nothing :: stage_result where
  "nothing = (None, None, None, Map.empty)"

definition search_vessel_combined ::
  "(param \<Rightarrow> vessel list option) \<Rightarrow> (string list \<Rightarrow> string list) \<Rightarrow> string \<Rightarrow> string
     \<Rightarrow> stage_result \<times> call list" where
  "search_vessel_combined http uniq imo name =
     (if \<not> (imo \<noteq> [] \<and> name \<noteq> []) then (nothing, [Invoke Combined])
      else (let prm = Where_clause (''(imo = '' @ quoted imo @ '' AND shipname = '' @ quoted name @ '')'')
            in (case http prm of
                  None \<Rightarrow> nothing
                | Some data \<Rightarrow>
                    (case extract_ssvids_from_response uniq data of
                       (Some (sv # svs), Some (vid # vids), details) \<Rightarrow>
                         (Some sv, Some vid, Some ''GFW-combined'', details)
                     | _ \<Rightarrow> nothing),
                [Invoke Combined, Request Combined prm])))"


section \<open>Resolution against the local database (IMO\_TO\_SSID.py)\<close>

text \<open>
  An entry of \<^verbatim>\<open>local_db\<close> is a dictionary with the keys the script reads and writes;
  each field is \<open>None\<close> when the key is absent.
\<close>

record entry =
  e_name :: "pyval option"
  e_ssvid :: "pyval option"
  e_vessel_id :: "pyval option"
  e_source :: "pyval option"
  e_details :: "detail option"

definition empty_entry :: entry where
  "empty_entry = \<lparr>e_name = None, e_ssvid = None, e_vessel_id = None, e_source = None,
                    e_details = None\<rparr>"

text \<open>
  The lookup part of the loop body of \<^verbatim>\<open>process_vessel_list\<close>: the local database first,
  then the three stages, each under \<^verbatim>\<open>if not ssvid\<close>.
\<close>

definition from_local_db :: "(string \<rightharpoonup> entry) \<Rightarrow> string \<Rightarrow> stage_result" where
  "from_local_db local_db imo =
     (case local_db imo of
        None \<Rightarrow> nothing
      | Some e \<Rightarrow>
          (case e_ssvid e of
             None \<Rightarrow> nothing
           | Some sv \<Rightarrow>
               (sv, (case e_vessel_id e of None \<Rightarrow> None | Some v \<Rightarrow> v),
                Some ''local-db'', Map.empty)))"

definition resolve ::
  "(param \<Rightarrow> vessel list option) \<Rightarrow> (string list \<Rightarrow> string list) \<Rightarrow> (string \<rightharpoonup> entry)
     \<Rightarrow> string \<Rightarrow> string \<Rightarrow> stage_result \<times> call list" where
  "resolve http uniq local_db imo vessel_name =
     (let r0 = from_local_db local_db imo in
      if truthy_str (fst r0) then (r0, [])
      else (let (r1, t1) = search_vessel_combined http uniq imo vessel_name in
            if truthy_str (fst r1) then (r1, t1)
            else (let (r2, t2) = search_vessel_advanced http uniq imo vessel_name in
                  if truthy_str (fst r2) then (r2, t1 @ t2)
                  else (let (r3, t3) = search_vessel_basic http uniq imo vessel_name in
                        (r3, t1 @ t2 @ t3)))))"

text \<open>
  The block under \<^verbatim>\<open>if ssvid:\<close>: the entry for the key is created empty if absent and its
  fields are then assigned one by one; \<^verbatim>\<open>details\<close> is assigned only if the lookup
  returned details for the identifier.
\<close>

definition store ::
  "(string \<rightharpoonup> entry) \<Rightarrow> string \<Rightarrow> string \<Rightarrow> stage_result \<Rightarrow> (string \<rightharpoonup> entry)" where
  "store local_db imo vessel_name r =
     (case r of (ssvid, vessel_id, source, details) \<Rightarrow>
        if truthy_str ssvid
        then (let e0 = (case local_db imo of None \<Rightarrow> empty_entry | Some e \<Rightarrow> e);
                  e1 = e0\<lparr>e_name := Some (Some vessel_name), e_ssvid := Some ssvid,
                          e_vessel_id := Some vessel_id, e_source := Some source\<rparr>;
                  e2 = (case details (the ssvid) of
                          None \<Rightarrow> e1
                        | Some d \<Rightarrow> e1\<lparr>e_details := Some d\<rparr>)
              in local_db(imo \<mapsto> e2))
        else local_db)"

text \<open>
  One iteration of the loop over the input rows: the values written to the output row, the
  local database after the iteration, and the trace of stage calls and requests.
\<close>

definition or_not_found :: "pyval \<Rightarrow> string" where
  "or_not_found v = (if truthy_str v then the v else ''Not found'')"

definition process_row ::
  "(param \<Rightarrow> vessel list option) \<Rightarrow> (string list \<Rightarrow> string list) \<Rightarrow> (string \<rightharpoonup> entry)
     \<Rightarrow> string \<Rightarrow> string \<Rightarrow> string list \<times> (string \<rightharpoonup> entry) \<times> call list" where
  "process_row http uniq local_db imo vessel_name =
     (case resolve http uniq local_db imo vessel_name of
        (r, trace) \<Rightarrow>
          (case r of (ssvid, vessel_id, source, details) \<Rightarrow>
             ([imo, vessel_name, or_not_found ssvid, or_not_found vessel_id, or_not_found source],
              store local_db imo vessel_name r, trace)))"


section \<open>Properties named by the specification\<close>

text \<open>
  An event is unusable when it is a dictionary whose start or end is missing (absent, null
  or otherwise falsy), or whose start and end are strings of which one fails to parse in
  both formats.
\<close>

definition fails_both :: "strptime_fn \<Rightarrow> string \<Rightarrow> bool" where
  "fails_both strptime ts =
     (strptime ts fmt_millis = Inl ValueError \<and> strptime ts fmt_seconds = Inl ValueError)"

definition unusable :: "strptime_fn \<Rightarrow> json \<Rightarrow> bool" where
  "unusable strptime event =
     (case event of
        JDict kvs \<Rightarrow>
          (let s = dict_get kvs ''start''; e = dict_get kvs ''end'' in
           \<not> truthy s \<or> \<not> truthy e \<or>
           (case s of
              JStr a \<Rightarrow> (case e of JStr b \<Rightarrow> fails_both strptime a \<or> fails_both strptime b
                                    | _ \<Rightarrow> False)
            | _ \<Rightarrow> False))
      | _ \<Rightarrow> False)"

text \<open>
  An event has textual timestamps when it is a dictionary whose start and end are each
  missing (absent or null) or a string: the activity event of the specification.
\<close>

fun is_text :: "json \<Rightarrow> bool" where
  "is_text JNull = True"
| "is_text (JStr s) = True"
| "is_text _ = False"

definition textual :: "json \<Rightarrow> bool" where
  "textual event =
     (case event of
        JDict kvs \<Rightarrow> is_text (dict_get kvs ''start'') \<and> is_text (dict_get kvs ''end'')
      | _ \<Rightarrow> False)"

text \<open>
  The interval the specification builds from an event: that of a dictionary whose start and
  end are both non-empty strings that parse, and none from any other event.
\<close>

definition usable_interval :: "strptime_fn \<Rightarrow> json \<Rightarrow> interval option" where
  "usable_interval strptime event =
     (case event of
        JDict kvs \<Rightarrow>
          (case dict_get kvs ''start'' of
             JStr a \<Rightarrow>
               (case dict_get kvs ''end'' of
                  JStr b \<Rightarrow>
                    (case parse_text strptime a of
                       None \<Rightarrow> None
                     | Some s \<Rightarrow>
                         (case parse_text strptime b of
                            None \<Rightarrow> None
                          | Some t \<Rightarrow> if a \<noteq> [] \<and> b \<noteq> [] then Some (s, t) else None))
                | _ \<Rightarrow> None)
           | _ \<Rightarrow> None)
      | _ \<Rightarrow> None)"

text \<open>The position of a stage in the cascade, and the stage a trace element belongs to.\<close>

fun stage_rank :: "stage \<Rightarrow> nat" where
  "stage_rank Combined = 0"
| "stage_rank Advanced = 1"
| "stage_rank Basic = 2"

fun call_stage :: "call \<Rightarrow> stage" where
  "call_stage (Invoke s) = s"
| "call_stage (Request s p) = s"

text \<open>
  The sub-record that \<^verbatim>\<open>get_vessel_details\<close> reads from the value under
  \<^verbatim>\<open>registryInfo\<close> or \<^verbatim>\<open>selfReportedInfo\<close>: the first element of a list, or the
  dictionary itself; none when the value is absent, empty or of another shape. A field
  prefers the registry sub-record: its value there if that is truthy, else the value in the
  self-reported sub-record if there is one. The display name of the self-reported
  sub-record is its ship name, with the default \<^verbatim>\<open>Unknown\<close>.
\<close>

fun sub_record :: "json \<Rightarrow> (string \<times> json) list option" where
  "sub_record (JList (JDict kvs # rest)) = Some kvs"
| "sub_record (JDict kvs) = (if kvs = [] then None else Some kvs)"
| "sub_record _ = None"

definition registry_value :: "(string \<times> json) list option \<Rightarrow> string \<Rightarrow> json" where
  "registry_value reg k = (case reg of None \<Rightarrow> JNull | Some r \<Rightarrow> dict_get r k)"

definition prefer_registry ::
  "(string \<times> json) list option \<Rightarrow> (string \<times> json) list option \<Rightarrow> string \<Rightarrow> json" where
  "prefer_registry reg self k =
     (if truthy (registry_value reg k) then registry_value reg k
      else (case self of None \<Rightarrow> registry_value reg k | Some s \<Rightarrow> dict_get s k))"

definition self_reported_name :: "(string \<times> json) list option \<Rightarrow> json" where
  "self_reported_name self =
     (case self of None \<Rightarrow> JStr ''Unknown''
      | Some s \<Rightarrow> dict_get_default s ''shipname'' (JStr ''Unknown''))"

text \<open>
  The sub-records that \<^verbatim>\<open>extract_ssvids_from_response\<close> reads, in the order it reads
  them: for each entry its self-reported sub-records, its registry sub-records and its own
  top-level fields. A sub-record carries an ssvid when that is truthy, and then contributes
  the ssvid with its details.
\<close>

definition sub_records :: "vessel list \<Rightarrow> info list" where
  "sub_records entries =
     concat (map (\<lambda>v. v_selfReportedInfo v @ v_registryInfo v @ [v_own v]) entries)"

definition carries_ssvid :: "info \<Rightarrow> bool" where
  "carries_ssvid i = truthy_str (i_ssvid i)"

definition ssvid_details :: "info \<Rightarrow> string \<times> detail" where
  "ssvid_details i = (the (i_ssvid i), detail_of i)"

text \<open>The ssvid and the source of a stage result, and the sources each stage can report.\<close>

definition res_ssvid :: "stage_result \<Rightarrow> pyval" where
  "res_ssvid r = fst r"

definition res_source :: "stage_result \<Rightarrow> pyval" where
  "res_source r = fst (snd (snd r))"

definition advanced_tags :: "string set" where
  "advanced_tags = {''GFW-IMO-advanced'', ''GFW-name-advanced'', ''GFW-name-partial''}"

definition basic_tags :: "string set" where
  "basic_tags = {''GFW-IMO-basic'', ''GFW-name-basic''}"


section \<open>Stand-ins for the external collaborators\<close>

text \<open>
  Concrete instances of the parameters, used to run the model: a \<^verbatim>\<open>strptime\<close> that
  knows a handful of timestamps, the float summation of CPython before 3.12, a registry
  that answers with one vessel, and an events endpoint that serves one page.
\<close>

definition known_timestamps :: "((string \<times> string) \<times> timestamp) list" where
  "known_timestamps =
     [((''2023-12-18T04:07:13.000Z'', fmt_millis), 1702872433000000),
      ((''2023-12-18T04:07:13Z'', fmt_seconds), 1702872433000000),
      ((''2023-12-18T10:00:00Z'', fmt_seconds), 1702893600000000),
      ((''2023-12-18T10:06:00Z'', fmt_seconds), 1702893960000000),
      ((''2023-12-18T10:30:00Z'', fmt_seconds), 1702895400000000),
      ((''2023-12-18T11:30:00Z'', fmt_seconds), 1702899000000000),
      ((''2023-12-18T12:00:00Z'', fmt_seconds), 1702900800000000),
      ((''2023-12-18T13:00:00Z'', fmt_seconds), 1702904400000000),
      ((''2023-12-18T14:00:00Z'', fmt_seconds), 1702908000000000),
      ((''2023-12-18T15:00:00Z'', fmt_seconds), 1702911600000000)]"

definition strptime_stub :: strptime_fn where
  "strptime_stub ts fmt =
     (case map_of known_timestamps (ts, fmt) of None \<Rightarrow> Inl ValueError | Some t \<Rightarrow> Inr t)"

definition mk_event :: "string \<Rightarrow> string \<Rightarrow> json" where
  "mk_event a b = JDict [(''start'', JStr a), (''end'', JStr b)]"

definition sum_left_to_right :: "real list \<Rightarrow> real" where
  "sum_left_to_right xs = foldl (\<lambda>acc x. round_double (acc + x)) 0 xs"

definition scenario_events :: "json list" where
  "scenario_events =
     [mk_event ''2023-12-18T10:00:00Z'' ''2023-12-18T12:00:00Z'',
      mk_event ''2023-12-18T11:30:00Z'' ''2023-12-18T13:00:00Z'',
      mk_event ''2023-12-18T14:00:00Z'' ''2023-12-18T15:00:00Z'']"

definition one_page :: "json list \<Rightarrow> events_params \<Rightarrow> events_response" where
  "one_page events params = (if p_offset params = 0 then Page events False else Page [] False)"

definition registry_answer :: "json \<Rightarrow> json \<Rightarrow> string \<Rightarrow> json option" where
  "registry_answer vid flag imo =
     Some (JDict [(''entries'',
             JList [JDict [(''registryInfo'', JList [JDict [(''id'', vid), (''flag'', flag)]])]])])"

text \<open>
  Events: one whose start is not a date, one of six minutes, and one whose end is a number.
\<close>

definition bad_start :: json where
  "bad_start = JDict [(''start'', JStr ''not-a-date''), (''end'', JStr ''2023-12-18T12:00:00Z'')]"

definition short_event :: json where
  "short_event = mk_event ''2023-12-18T10:00:00Z'' ''2023-12-18T10:06:00Z''"

definition numeric_end_event :: json where
  "numeric_end_event = JDict [(''start'', JStr ''2023-12-18T10:00:00Z''), (''end'', JNum 1702900800)]"

text \<open>
  Registry answers with a registry and a self-reported sub-record, for
  \<^verbatim>\<open>get_vessel_details\<close>, and a vessel whose registry and self-reported sub-records
  carry the same ssvid, for \<^verbatim>\<open>extract_ssvids_from_response\<close>.
\<close>

definition two_source_answer :: "string \<Rightarrow> json option" where
  "two_source_answer imo =
     Some (JDict [(''entries'',
       JList [JDict [(''registryInfo'',
                        JList [JDict [(''id'', JStr ''reg-id''), (''flag'', JStr ''SEN''),
                                      (''shipname'', JStr ''REGISTRY NAME'')]]),
                     (''selfReportedInfo'',
                        JList [JDict [(''id'', JStr ''self-id''), (''flag'', JStr ''ESP''),
                                      (''shipname'', JStr ''SELF NAME'')]])]])])"

definition fallback_answer :: "string \<Rightarrow> json option" where
  "fallback_answer imo =
     Some (JDict [(''entries'',
       JList [JDict [(''registryInfo'', JDict [(''id'', JStr ''reg-id'')]),
                     (''selfReportedInfo'',
                        JList [JDict [(''id'', JStr ''self-id''), (''flag'', JStr ''ESP'')],
                               JDict [(''shipname'', JStr ''SECOND NAME'')]])],
              JDict [(''id'', JStr ''other-vessel'')]])])"

definition overlapping_vessel :: vessel where
  "overlapping_vessel =
     \<lparr>v_id = Some ''abc123'',
      v_selfReportedInfo =
        [\<lparr>i_ssvid = Some ''663123456'', i_shipname = Some (Some ''SELF NAME''),
          i_imo = Some (Some ''9999999''), i_callsign = Some (Some ''6WAB''),
          i_flag = Some (Some ''ESP'')\<rparr>],
      v_registryInfo =
        [\<lparr>i_ssvid = Some ''663123456'', i_shipname = Some (Some ''REGISTRY NAME''),
          i_imo = None, i_callsign = None, i_flag = Some (Some ''SEN'')\<rparr>],
      v_own = \<lparr>i_ssvid = None, i_shipname = None, i_imo = None, i_callsign = None,
               i_flag = None\<rparr>\<rparr>"

text \<open>
  A search endpoint that knows one vessel and finds it only by the exact \<^verbatim>\<open>imo\<close> clause
  of the advanced stage; the entry a successful resolution of that vessel leaves in the
  local database.
\<close>

definition no_info :: info where
  "no_info = \<lparr>i_ssvid = None, i_shipname = None, i_imo = None, i_callsign = None, i_flag = None\<rparr>"

definition registered_vessel :: vessel where
  "registered_vessel =
     \<lparr>v_id = Some ''abc123'',
      v_selfReportedInfo =
        [\<lparr>i_ssvid = Some ''663123456'', i_shipname = Some (Some ''TEST VESSEL''),
          i_imo = Some (Some ''9999999''), i_callsign = None, i_flag = Some (Some ''SEN'')\<rparr>],
      v_registryInfo = [],
      v_own = no_info\<rparr>"

definition registered_detail :: detail where
  "registered_detail = \<lparr>dt_shipname = Some ''TEST VESSEL'', dt_imo = Some ''9999999'',
                          dt_callsign = Some [], dt_flag = Some ''SEN''\<rparr>"

definition advanced_only :: "param \<Rightarrow> vessel list option" where
  "advanced_only prm =
     (if prm = Where_clause (''imo = '' @ quoted ''9999999'') then Some [registered_vessel]
      else Some [])"

definition cached_entry :: entry where
  "cached_entry = \<lparr>e_name = Some (Some ''TEST VESSEL''), e_ssvid = Some (Some ''663123456''),
                    e_vessel_id = Some (Some ''abc123''), e_source = Some (Some ''GFW-IMO-advanced''),
                    e_details = Some registered_detail\<rparr>"


section \<open>Proofs: interval merging\<close>

text \<open>
  The loop keeps the last element of \<open>merged\<close> as its working interval, so it is the
  accumulator scan behind a fixed prefix.
\<close>

lemma merge_loop_scan: "merge_loop (pre @ [acc]) xs = pre @ scan acc xs"
proof (induction xs arbitrary: pre acc)
  case Nil
  show ?case by simp
next
  case (Cons cur rest)
  show ?case
  proof (cases "fst cur \<le> snd acc")
    case True
    then show ?thesis using Cons.IH [of pre "(fst acc, max (snd acc) (snd cur))"] by simp
  next
    case False
    then show ?thesis using Cons.IH [of "pre @ [acc]" cur] by simp
  qed
qed

lemma merge_intervals_scan:
  "fst (merge_intervals xs) =
     (case sort_key fst xs of [] \<Rightarrow> [] | x # r \<Rightarrow> scan x r)"
proof (cases xs)
  case Nil
  then show ?thesis by (simp add: merge_intervals_def)
next
  case (Cons a as)
  then have ne: "sort_key fst xs \<noteq> []" by (metis length_0_conv length_sort list.distinct(1))
  then obtain x r where xr: "sort_key fst xs = x # r" by (cases "sort_key fst xs") auto
  have "merge_loop ([] @ [x]) r = [] @ scan x r" by (rule merge_loop_scan)
  then show ?thesis using Cons xr by (simp add: merge_intervals_def Let_def)
qed

lemma scan_fst_ge:
  "sorted (map fst xs) \<Longrightarrow> \<forall>x \<in> set xs. fst acc \<le> fst x \<Longrightarrow> \<forall>y \<in> set (scan acc xs). fst acc \<le> fst y"
proof (induction xs arbitrary: acc)
  case Nil
  show ?case by simp
next
  case (Cons cur rest)
  show ?case
  proof (cases "fst cur \<le> snd acc")
    case True
    have "\<forall>y \<in> set (scan (fst acc, max (snd acc) (snd cur)) rest). fst (fst acc, max (snd acc) (snd cur)) \<le> fst y"
      using Cons.prems by (intro Cons.IH) auto
    then show ?thesis using True by simp
  next
    case False
    have "\<forall>y \<in> set (scan cur rest). fst cur \<le> fst y"
      using Cons.prems by (intro Cons.IH) auto
    moreover have "fst acc \<le> fst cur" using Cons.prems by simp
    ultimately show ?thesis using False by fastforce
  qed
qed

lemma scan_sorted_disjoint:
  "sorted (map fst xs) \<Longrightarrow> \<forall>x \<in> set xs. fst acc \<le> fst x \<Longrightarrow>
   sorted_wrt (\<lambda>a b. snd a < fst b) (scan acc xs)"
proof (induction xs arbitrary: acc)
  case Nil
  show ?case by simp
next
  case (Cons cur rest)
  show ?case
  proof (cases "fst cur \<le> snd acc")
    case True
    have "sorted_wrt (\<lambda>a b. snd a < fst b) (scan (fst acc, max (snd acc) (snd cur)) rest)"
      using Cons.prems by (intro Cons.IH) auto
    then show ?thesis using True by simp
  next
    case False
    have a: "sorted_wrt (\<lambda>a b. snd a < fst b) (scan cur rest)"
      using Cons.prems by (intro Cons.IH) auto
    have "\<forall>y \<in> set (scan cur rest). fst cur \<le> fst y"
      using Cons.prems by (intro scan_fst_ge) auto
    then have "\<forall>y \<in> set (scan cur rest). snd acc < fst y" using False by fastforce
    then show ?thesis using a False by simp
  qed
qed

lemma scan_well_formed:
  "fst acc \<le> snd acc \<Longrightarrow> well_formed xs \<Longrightarrow> well_formed (scan acc xs)"
proof (induction xs arbitrary: acc)
  case Nil
  then show ?case by (simp add: well_formed_def)
next
  case (Cons cur rest)
  then show ?case by (auto simp: well_formed_def max_def)
qed

lemma scan_sorted_starts:
  "sorted (map fst xs) \<Longrightarrow> \<forall>x \<in> set xs. fst acc \<le> fst x \<Longrightarrow> sorted (map fst (scan acc xs))"
proof (induction xs arbitrary: acc)
  case Nil
  show ?case by simp
next
  case (Cons cur rest)
  show ?case
  proof (cases "fst cur \<le> snd acc")
    case True
    have "sorted (map fst (scan (fst acc, max (snd acc) (snd cur)) rest))"
      using Cons.prems by (intro Cons.IH) auto
    then show ?thesis using True by simp
  next
    case False
    have a: "sorted (map fst (scan cur rest))"
      using Cons.prems by (intro Cons.IH) auto
    have "\<forall>y \<in> set (scan cur rest). fst cur \<le> fst y"
      using Cons.prems by (intro scan_fst_ge) auto
    moreover have "fst acc \<le> fst cur" using Cons.prems by simp
    ultimately have "\<forall>y \<in> set (scan cur rest). fst acc \<le> fst y" by fastforce
    then show ?thesis using a False by simp
  qed
qed

lemma covered_Cons: "covered (x # xs) = {fst x..snd x} \<union> covered xs"
  by (auto simp: covered_def)

lemma covered_Nil: "covered [] = {}"
  by (simp add: covered_def)

lemma scan_covered:
  "\<forall>x \<in> set xs. fst acc \<le> fst x \<Longrightarrow> sorted (map fst xs) \<Longrightarrow>
   covered (scan acc xs) = {fst acc..snd acc} \<union> covered xs"
proof (induction xs arbitrary: acc)
  case Nil
  show ?case by (simp add: covered_Cons covered_Nil)
next
  case (Cons cur rest)
  show ?case
  proof (cases "fst cur \<le> snd acc")
    case True
    have "covered (scan (fst acc, max (snd acc) (snd cur)) rest)
          = {fst (fst acc, max (snd acc) (snd cur))..snd (fst acc, max (snd acc) (snd cur))} \<union> covered rest"
      using Cons.prems by (intro Cons.IH) auto
    moreover have "{fst acc..max (snd acc) (snd cur)} = {fst acc..snd acc} \<union> {fst cur..snd cur}"
      using True Cons.prems by auto
    ultimately show ?thesis using True by (simp add: covered_Cons Un_assoc)
  next
    case False
    have "covered (scan cur rest) = {fst cur..snd cur} \<union> covered rest"
      using Cons.prems by (intro Cons.IH) auto
    then show ?thesis using False by (simp add: covered_Cons)
  qed
qed

text \<open>
  Permutation invariance. Two neighbours with the same start may be exchanged when both have
  \<open>start \<le> end\<close>: whichever comes first, both are absorbed into the same interval. A list
  sorted by start is brought to any other sorted arrangement of the same intervals by such
  exchanges.
\<close>

lemma scan_swap:
  "fst x = fst y \<Longrightarrow> fst x \<le> snd x \<Longrightarrow> fst y \<le> snd y \<Longrightarrow>
   scan acc (x # y # xs) = scan acc (y # x # xs)"
proof (cases "fst x \<le> snd acc")
  case True
  assume "fst x = fst y" "fst x \<le> snd x" "fst y \<le> snd y"
  then have "fst y \<le> max (snd acc) (snd x)" "fst x \<le> max (snd acc) (snd y)" "fst y \<le> snd acc"
    using True by auto
  then show ?thesis using True by (simp add: max.assoc max.commute max.left_commute)
next
  case False
  assume "fst x = fst y" "fst x \<le> snd x" "fst y \<le> snd y"
  then show ?thesis using False by (simp add: max.commute)
qed

lemma scan_step_cong:
  "(\<And>a. scan a xs = scan a ys) \<Longrightarrow> scan acc (x # xs) = scan acc (x # ys)"
  by simp

lemma scan_move_front:
  "\<forall>y \<in> set ys1. fst y = fst x \<and> fst y \<le> snd y \<Longrightarrow> fst x \<le> snd x \<Longrightarrow>
   scan acc (ys1 @ x # ys2) = scan acc (x # ys1 @ ys2)"
proof (induction ys1 arbitrary: acc)
  case Nil
  show ?case by simp
next
  case (Cons y ys1)
  have IH: "\<And>a. scan a (ys1 @ x # ys2) = scan a (x # ys1 @ ys2)"
    using Cons.prems by (intro Cons.IH) auto
  have "scan acc ((y # ys1) @ x # ys2) = scan acc (y # (ys1 @ x # ys2))" by simp
  also have "\<dots> = scan acc (y # x # ys1 @ ys2)"
    by (rule scan_step_cong) (rule IH)
  also have "\<dots> = scan acc (x # y # ys1 @ ys2)"
    using Cons.prems by (intro scan_swap) auto
  finally show ?case by simp
qed

lemma scan_perm:
  "sorted (map fst xs) \<Longrightarrow> sorted (map fst ys) \<Longrightarrow> mset xs = mset ys \<Longrightarrow> well_formed xs \<Longrightarrow>
   scan acc xs = scan acc ys"
proof (induction xs arbitrary: ys acc)
  case Nil
  then show ?case by simp
next
  case (Cons x xs)
  have sets: "set ys = set (x # xs)" using Cons.prems(3) by (metis mset_eq_setD)
  then have "x \<in> set ys" by simp
  then obtain ys1 ys2 where ys: "ys = ys1 @ x # ys2" by (meson split_list)
  have wf: "\<forall>y \<in> set (x # xs). fst y \<le> snd y"
    using Cons.prems(4) by (simp add: well_formed_def list_all_iff)
  have front: "\<forall>y \<in> set ys1. fst y = fst x \<and> fst y \<le> snd y"
  proof
    fix y assume y: "y \<in> set ys1"
    have "fst y \<le> fst x" using Cons.prems(2) y ys by (auto simp: sorted_append)
    moreover have "y \<in> set (x # xs)" using y ys sets by auto
    then have "fst x \<le> fst y" using Cons.prems(1) by auto
    ultimately show "fst y = fst x \<and> fst y \<le> snd y" using wf \<open>y \<in> set (x # xs)\<close> by auto
  qed
  have m: "mset xs = mset (ys1 @ ys2)" using Cons.prems(3) ys by simp
  have s: "sorted (map fst (ys1 @ ys2))" using Cons.prems(2) ys by (auto simp: sorted_append)
  have IH: "\<And>a. scan a xs = scan a (ys1 @ ys2)"
    using Cons.prems m s by (intro Cons.IH) (auto simp: well_formed_def)
  have "scan acc ys = scan acc (x # ys1 @ ys2)"
    unfolding ys using front wf by (intro scan_move_front) auto
  also have "\<dots> = scan acc (x # xs)"
    by (rule scan_step_cong) (rule IH [symmetric])
  finally show ?case by simp
qed

lemma scan_self: "fst x \<le> snd x \<Longrightarrow> scan (fst x, fst x) (x # r) = scan x r"
  by (simp add: max_def)

lemma sorted_hd_min:
  "sorted (map fst (x # r)) \<Longrightarrow> \<forall>z \<in> set (x # r). fst x \<le> fst z"
  by auto

lemma merge_intervals_perm_aux:
  assumes wf: "well_formed xs" and p: "mset ys = mset xs"
  shows "fst (merge_intervals ys) = fst (merge_intervals xs)"
proof (cases xs)
  case Nil
  then show ?thesis using p by (simp add: merge_intervals_def)
next
  case (Cons a as)
  let ?sx = "sort_key fst xs" and ?sy = "sort_key fst ys"
  have mx: "mset ?sx = mset xs" and my: "mset ?sy = mset xs" using p by simp_all
  have nx: "?sx \<noteq> []" using Cons mx by (metis mset_zero_iff list.distinct(1))
  have ny: "?sy \<noteq> []" using Cons my by (metis mset_zero_iff list.distinct(1))
  obtain x r where xr: "?sx = x # r" using nx by (cases ?sx) auto
  obtain y q where yq: "?sy = y # q" using ny by (cases ?sy) auto
  have sx: "sorted (map fst (x # r))" using xr by (metis sorted_sort_key)
  have sy: "sorted (map fst (y # q))" using yq by (metis sorted_sort_key)
  have setx: "set (x # r) = set xs" using xr by (metis set_sort)
  have sety: "set (y # q) = set xs" using yq p by (metis set_sort mset_eq_setD)
  have wfx: "well_formed (x # r)" using wf setx by (simp add: well_formed_def list_all_iff)
  have wfall: "\<forall>z \<in> set xs. fst z \<le> snd z" using wf by (simp add: well_formed_def list_all_iff)
  have "fst x \<le> fst y" using sorted_hd_min [OF sx] setx sety by auto
  moreover have "fst y \<le> fst x" using sorted_hd_min [OF sy] setx sety by auto
  ultimately have e: "fst y = fst x" by simp
  have wx: "fst x \<le> snd x" using wfall setx by auto
  have wy: "fst y \<le> snd y" using wfall sety by auto
  have "scan y q = scan (fst x, fst x) (y # q)" using scan_self [OF wy] e by simp
  also have "\<dots> = scan (fst x, fst x) (x # r)"
    using sx sy wfx mx my xr yq by (intro scan_perm [symmetric]) auto
  also have "\<dots> = scan x r" by (rule scan_self [OF wx])
  finally show ?thesis using xr yq by (simp add: merge_intervals_scan)
qed

lemma well_formed_iff: "well_formed xs \<longleftrightarrow> (\<forall>(s, e) \<in> set xs. s \<le> e)"
  by (auto simp: well_formed_def list_all_iff)

lemma merge_intervals_sorted_aux:
  "sorted (map fst (fst (merge_intervals xs))) \<and>
   sorted_wrt (\<lambda>a b. snd a < fst b) (fst (merge_intervals xs)) \<and>
   covered (fst (merge_intervals xs)) = covered xs"
proof (cases "sort_key fst xs")
  case Nil
  then have "xs = []" by (metis length_0_conv length_sort)
  then show ?thesis by (simp add: merge_intervals_def)
next
  case (Cons x r)
  have s: "sorted (map fst (x # r))" using Cons by (metis sorted_sort_key)
  then have sr: "sorted (map fst r)" and ge: "\<forall>z \<in> set r. fst x \<le> fst z" by auto
  have "covered xs = covered (x # r)" using Cons by (metis covered_def set_sort)
  then have c: "covered xs = {fst x..snd x} \<union> covered r" by (simp add: covered_Cons)
  have m: "fst (merge_intervals xs) = scan x r" using Cons by (simp add: merge_intervals_scan)
  show ?thesis
    unfolding m c
    using scan_sorted_starts [OF sr ge] scan_sorted_disjoint [OF sr ge] scan_covered [OF ge sr]
    by simp
qed

text \<open>
  C2. For every list of intervals with \<open>start \<le> end\<close>, the list returned by
  \<^verbatim>\<open>merge_intervals\<close> is sorted by start; every interval of it ends strictly before every
  later one starts; it covers exactly the time points the input covers; and every permutation
  of the input gives the same list.
\<close>

theorem merge_intervals_correct:
  assumes "\<forall>(s, e) \<in> set xs. s \<le> e"
  shows "sorted (map fst (fst (merge_intervals xs))) \<and>
         sorted_wrt (\<lambda>a b. snd a < fst b) (fst (merge_intervals xs)) \<and>
         covered (fst (merge_intervals xs)) = covered xs \<and>
         (\<forall>ys. mset ys = mset xs \<longrightarrow> fst (merge_intervals ys) = fst (merge_intervals xs))"
proof -
  have wf: "well_formed xs" using assms by (simp add: well_formed_iff)
  have "\<forall>ys. mset ys = mset xs \<longrightarrow> fst (merge_intervals ys) = fst (merge_intervals xs)"
    using merge_intervals_perm_aux [OF wf] by blast
  then show ?thesis using merge_intervals_sorted_aux [of xs] by blast
qed

lemma sort_key_fst_eval:
  "sort_key fst [(10, 12), (14, 15), (11, 13 :: int)] = [(10 :: int, 12), (11, 13), (14, 15)]"
  by simp

text \<open>
  The intervals 10--12, 14--15 and 11--13 merge to 10--13 and 14--15, in either order.
\<close>

theorem merge_intervals_correct_witness:
  "fst (merge_intervals [(10, 12), (14, 15), (11, 13)]) = [(10, 13), (14, 15)] \<and>
   sorted (map fst (fst (merge_intervals [(10, 12), (14, 15), (11, 13)]))) \<and>
   sorted_wrt (\<lambda>a b. snd a < fst b) (fst (merge_intervals [(10, 12), (14, 15), (11, 13)])) \<and>
   covered (fst (merge_intervals [(10, 12), (14, 15), (11, 13)])) = covered [(10, 12), (14, 15), (11, 13)] \<and>
   mset [(11 :: int, 13 :: int), (10, 12), (14, 15)] = mset [(10, 12), (14, 15), (11, 13)] \<and>
   fst (merge_intervals [(11, 13), (10, 12), (14, 15)]) = fst (merge_intervals [(10, 12), (14, 15), (11, 13)])"
proof -
  have h: "\<forall>(s, e) \<in> set [(10 :: int, 12 :: int), (14, 15), (11, 13)]. s \<le> e" by simp
  have p: "mset [(11 :: int, 13 :: int), (10, 12), (14, 15)] = mset [(10, 12), (14, 15), (11, 13)]" by simp
  have v: "fst (merge_intervals [(10, 12), (14, 15), (11, 13)]) = [(10, 13), (14, 15)]"
    by (simp add: merge_intervals_def Let_def)
  note c = merge_intervals_correct [OF h]
  have q: "fst (merge_intervals [(11, 13), (10, 12), (14, 15)])
           = fst (merge_intervals [(10, 12), (14, 15), (11, 13)])"
    by (rule c [THEN conjunct2, THEN conjunct2, THEN conjunct2, THEN spec, THEN mp, OF p])
  show ?thesis
    using p v q c [THEN conjunct1] c [THEN conjunct2, THEN conjunct1]
      c [THEN conjunct2, THEN conjunct2, THEN conjunct1]
    by (intro conjI) assumption+
qed

text \<open>
  C9 fails as stated: called on the list \<open>[(5, 6), (1, 2)]\<close>, \<^verbatim>\<open>merge_intervals\<close> leaves
  the caller's list as \<open>[(1, 2), (5, 6)]\<close>, not in the order it had before the call.
\<close>

theorem merge_intervals_mutates_input:
  "snd (merge_intervals [(5, 6), (1, 2)]) = [(1, 2), (5, 6)] \<and>
   snd (merge_intervals [(5, 6), (1, 2)]) \<noteq> [(5, 6), (1, 2)]"
  by (simp add: merge_intervals_def Let_def)

text \<open>
  C9, amended. \<^verbatim>\<open>merge_intervals\<close> sorts its argument in place: after the call the input
  list holds the same intervals as before (none added, dropped or changed), ordered by start,
  with intervals of equal start in their original order. The input is unchanged exactly when
  it was already sorted by start.
\<close>

theorem merge_intervals_input_after:
  "mset (snd (merge_intervals xs)) = mset xs \<and>
   sorted (map fst (snd (merge_intervals xs))) \<and>
   (\<forall>k. filter (\<lambda>iv. fst iv = k) (snd (merge_intervals xs)) = filter (\<lambda>iv. fst iv = k) xs) \<and>
   (snd (merge_intervals xs) = xs \<longleftrightarrow> sorted (map fst xs))"
proof -
  have a: "snd (merge_intervals xs) = sort_key fst xs"
    by (simp add: merge_intervals_def Let_def)
  have "sort_key fst xs = xs \<longleftrightarrow> sorted (map fst xs)"
    by (metis sorted_sort_key sort_key_id_if_sorted)
  then show ?thesis unfolding a by (simp add: sort_key_stable)
qed

text \<open>
  An unsorted list comes back sorted; a sorted list comes back as it was.
\<close>

theorem merge_intervals_input_after_witness:
  "mset (snd (merge_intervals [(5, 6), (1, 2)])) = mset [(5, 6), (1, 2)] \<and>
   sorted (map fst (snd (merge_intervals [(5, 6), (1, 2)]))) \<and>
   snd (merge_intervals [(5, 6), (1, 2)]) \<noteq> [(5, 6), (1, 2)] \<and>
   snd (merge_intervals [(1, 2), (5, 6)]) = [(1, 2), (5, 6)]"
  using merge_intervals_input_after [of "[(5, 6), (1, 2)]"]
    merge_intervals_input_after [of "[(1, 2), (5, 6)]"]
  by simp

section \<open>Proofs: timestamps and total hours\<close>

text \<open>
  Rounding to a double is evaluated by unfolding the search for the binary exponent one
  numeral at a time.
\<close>

lemma binary_exponent_numeral:
  "binary_exponent (numeral k) x =
     (if 2 \<le> x then binary_exponent (pred_numeral k) (x / 2) + 1
      else if x < 1 then binary_exponent (pred_numeral k) (x * 2) - 1
      else 0)"
  by (simp add: numeral_eq_Suc)

lemma round_double_zero: "round_double 0 = 0"
  by (simp add: round_double_def)

lemma py_sum_Nil: "py_sum float_sum [] = 0"
  by (simp add: py_sum_def)

lemma parse_text_None_iff:
  "parse_text strptime ts = None \<longleftrightarrow> fails_both strptime ts"
  by (auto simp: parse_text_def fails_both_def split: sum.splits py_error.splits)

lemma parse_text_millis:
  "strptime ts fmt_millis = Inr t \<Longrightarrow> parse_text strptime ts = Some t"
  by (simp add: parse_text_def)

lemma parse_text_seconds:
  "strptime ts fmt_millis = Inl ValueError \<Longrightarrow> strptime ts fmt_seconds = Inr t \<Longrightarrow>
   parse_text strptime ts = Some t"
  by (simp add: parse_text_def)

lemma event_interval_dict:
  "event_interval strptime (JDict kvs) =
     (if truthy (dict_get kvs ''start'') \<and> truthy (dict_get kvs ''end'')
      then (case parse_timestamp strptime (dict_get kvs ''start'') of
              Inl e \<Rightarrow> Inl e
            | Inr start \<Rightarrow>
                (case parse_timestamp strptime (dict_get kvs ''end'') of
                   Inl e \<Rightarrow> Inl e
                 | Inr end' \<Rightarrow>
                     (case start of
                        None \<Rightarrow> Inr None
                      | Some s \<Rightarrow> (case end' of None \<Rightarrow> Inr None | Some t \<Rightarrow> Inr (Some (s, t))))))
      else Inr None)"
  by (simp add: event_interval_def)

lemma textual_event_interval:
  assumes "textual event"
  shows "event_interval strptime event = Inr (usable_interval strptime event)"
proof -
  obtain kvs where e: "event = JDict kvs"
    and s: "is_text (dict_get kvs ''start'')" and t: "is_text (dict_get kvs ''end'')"
    using assms by (auto simp: textual_def split: json.splits)
  show ?thesis
  proof (cases "dict_get kvs ''start''")
    case (JStr a)
    show ?thesis
    proof (cases "dict_get kvs ''end''")
      case (JStr b)
      show ?thesis
        using e \<open>dict_get kvs ''start'' = JStr a\<close> JStr
        by (simp add: event_interval_dict usable_interval_def split: option.splits)
    qed (use e t JStr in \<open>simp_all add: event_interval_dict usable_interval_def\<close>)
  qed (use e s in \<open>simp_all add: event_interval_dict usable_interval_def\<close>)
qed

lemma unusable_event_interval:
  assumes "unusable strptime event"
  shows "event_interval strptime event = Inr None"
proof -
  obtain kvs where e: "event = JDict kvs" using assms by (auto simp: unusable_def split: json.splits)
  have u: "\<not> truthy (dict_get kvs ''start'') \<or> \<not> truthy (dict_get kvs ''end'') \<or>
           (\<exists>a b. dict_get kvs ''start'' = JStr a \<and> dict_get kvs ''end'' = JStr b \<and>
                  (fails_both strptime a \<or> fails_both strptime b))"
    using assms e by (auto simp: unusable_def Let_def split: json.splits)
  show ?thesis
  proof (cases "truthy (dict_get kvs ''start'') \<and> truthy (dict_get kvs ''end'')")
    case False
    then show ?thesis unfolding e event_interval_dict by (simp only: if_False)
  next
    case True
    then obtain a b where ab: "dict_get kvs ''start'' = JStr a" "dict_get kvs ''end'' = JStr b"
      and f: "fails_both strptime a \<or> fails_both strptime b"
      using u by blast
    have "parse_text strptime a = None \<or> parse_text strptime b = None"
      using f by (simp add: parse_text_None_iff)
    then show ?thesis using e ab True
      by (auto simp: event_interval_dict split: option.splits)
  qed
qed

lemma unusable_usable_interval:
  assumes "unusable strptime event"
  shows "usable_interval strptime event = None"
proof -
  obtain kvs where e: "event = JDict kvs" using assms by (auto simp: unusable_def split: json.splits)
  have u: "\<not> truthy (dict_get kvs ''start'') \<or> \<not> truthy (dict_get kvs ''end'') \<or>
           (\<exists>a b. dict_get kvs ''start'' = JStr a \<and> dict_get kvs ''end'' = JStr b \<and>
                  (fails_both strptime a \<or> fails_both strptime b))"
    using assms e by (auto simp: unusable_def Let_def split: json.splits)
  show ?thesis
    using u e
    by (auto simp: usable_interval_def parse_text_None_iff [symmetric] split: json.splits option.splits)
qed

lemma textual_unusable_iff:
  assumes "textual event"
  shows "usable_interval strptime event = None \<longleftrightarrow> unusable strptime event"
proof
  assume "unusable strptime event"
  then show "usable_interval strptime event = None" by (rule unusable_usable_interval)
next
  assume n: "usable_interval strptime event = None"
  obtain kvs where e: "event = JDict kvs"
    and s: "is_text (dict_get kvs ''start'')" and t: "is_text (dict_get kvs ''end'')"
    using assms by (auto simp: textual_def split: json.splits)
  show "unusable strptime event"
  proof (cases "dict_get kvs ''start''")
    case (JStr a)
    note a = JStr
    show ?thesis
    proof (cases "dict_get kvs ''end''")
      case (JStr b)
      have "a = [] \<or> b = [] \<or> parse_text strptime a = None \<or> parse_text strptime b = None"
        using n e a JStr by (auto simp: usable_interval_def split: option.splits if_splits)
      then show ?thesis
        using e a JStr by (auto simp: unusable_def Let_def parse_text_None_iff)
    qed (use e t a in \<open>simp_all add: unusable_def Let_def\<close>)
  qed (use e s in \<open>simp_all add: unusable_def Let_def\<close>)
qed

lemma collect_intervals_textual:
  "\<forall>e \<in> set events. textual e \<Longrightarrow>
   collect_intervals strptime events acc =
     Inr (acc @ List.map_filter (usable_interval strptime) events)"
proof (induction events arbitrary: acc)
  case Nil
  show ?case by (simp add: List.map_filter_simps)
next
  case (Cons e events)
  have t: "event_interval strptime e = Inr (usable_interval strptime e)"
    using Cons.prems by (simp add: textual_event_interval)
  have r: "\<forall>x \<in> set events. textual x" using Cons.prems by simp
  show ?case
  proof (cases "usable_interval strptime e")
    case None
    then show ?thesis using t Cons.IH [OF r, of acc] by (simp add: List.map_filter_simps)
  next
    case (Some iv)
    then show ?thesis using t Cons.IH [OF r, of "acc @ [iv]"] by (simp add: List.map_filter_simps)
  qed
qed

lemma collect_intervals_drop:
  "unusable strptime e \<Longrightarrow>
   collect_intervals strptime (es1 @ e # es2) acc = collect_intervals strptime (es1 @ es2) acc"
proof (induction es1 arbitrary: acc)
  case Nil
  then show ?case by (simp add: unusable_event_interval)
next
  case (Cons x es1)
  then show ?case by (simp split: sum.splits option.splits)
qed

lemma collect_intervals_all_unusable:
  "\<forall>e \<in> set events. unusable strptime e \<Longrightarrow> collect_intervals strptime events acc = Inr acc"
  by (induction events arbitrary: acc) (simp_all add: unusable_event_interval)

lemma calculate_total_hours_zero:
  "\<forall>e \<in> set events. unusable strptime e \<Longrightarrow>
   calculate_total_hours strptime float_sum events = Inr 0"
  by (simp add: calculate_total_hours_def collect_intervals_all_unusable merge_intervals_def
        py_sum_Nil round_double_zero)

lemma calculate_total_hours_textual:
  "\<forall>e \<in> set events. textual e \<Longrightarrow>
   calculate_total_hours strptime float_sum events =
     Inr (round_double
            (py_sum float_sum
               (map total_seconds
                  (fst (merge_intervals (List.map_filter (usable_interval strptime) events))))
             / 3600))"
  by (simp add: calculate_total_hours_def collect_intervals_textual Let_def)

lemma stub_millis: "strptime_stub ''2023-12-18T04:07:13.000Z'' fmt_millis = Inr 1702872433000000"
  by (simp add: strptime_stub_def known_timestamps_def fmt_millis_def fmt_seconds_def)

lemma stub_seconds_a: "strptime_stub ''2023-12-18T04:07:13Z'' fmt_millis = Inl ValueError"
  by (simp add: strptime_stub_def known_timestamps_def fmt_millis_def fmt_seconds_def)

lemma stub_seconds_b: "strptime_stub ''2023-12-18T04:07:13Z'' fmt_seconds = Inr 1702872433000000"
  by (simp add: strptime_stub_def known_timestamps_def fmt_millis_def fmt_seconds_def)

lemma stub_bad: "strptime_stub ''not-a-date'' fmt = Inl ValueError"
  by (simp add: strptime_stub_def known_timestamps_def fmt_millis_def fmt_seconds_def)

lemma stub_parse:
  "parse_text strptime_stub ''2023-12-18T10:00:00Z'' = Some 1702893600000000"
  "parse_text strptime_stub ''2023-12-18T10:06:00Z'' = Some 1702893960000000"
  "parse_text strptime_stub ''2023-12-18T11:30:00Z'' = Some 1702899000000000"
  "parse_text strptime_stub ''2023-12-18T12:00:00Z'' = Some 1702900800000000"
  "parse_text strptime_stub ''2023-12-18T13:00:00Z'' = Some 1702904400000000"
  "parse_text strptime_stub ''2023-12-18T14:00:00Z'' = Some 1702908000000000"
  "parse_text strptime_stub ''2023-12-18T15:00:00Z'' = Some 1702911600000000"
  "parse_text strptime_stub ''not-a-date'' = None"
  by (simp_all add: parse_text_def strptime_stub_def known_timestamps_def fmt_millis_def
        fmt_seconds_def)

lemma round_double_eval:
  "round_double 360 = 360"
  "round_double 3600 = 3600"
  "round_double 7200 = 7200"
  "round_double 10800 = 10800"
  "round_double 14400 = 14400"
  "round_double 3 = 3"
  "round_double 4 = 4"
  "round_double (1 / 10) = 3602879701896397 / 36028797018963968"
  by (simp_all add: round_double_def binary_exponent_numeral pow2_def ties_to_even_def Let_def)

lemma bad_start_unusable: "unusable strptime_stub bad_start"
  by (simp add: unusable_def bad_start_def dict_get_def fails_both_def stub_bad)

lemma three_events_usable:
  "List.map_filter (usable_interval strptime_stub)
     ([mk_event ''2023-12-18T10:00:00Z'' ''2023-12-18T12:00:00Z''] @
      [mk_event ''2023-12-18T14:00:00Z'' ''2023-12-18T15:00:00Z'']) =
   [(1702893600000000, 1702900800000000), (1702908000000000, 1702911600000000)]"
  by (simp add: List.map_filter_simps usable_interval_def mk_event_def dict_get_def stub_parse)

lemma two_intervals_merged:
  "fst (merge_intervals [(1702893600000000, 1702900800000000), (1702908000000000, 1702911600000000)])
   = [(1702893600000000, 1702900800000000), (1702908000000000, 1702911600000000)]"
  by (simp add: merge_intervals_def Let_def)

lemma two_intervals_hours:
  "round_double
     (py_sum sum_left_to_right
        (map total_seconds
           [(1702893600000000, 1702900800000000), (1702908000000000, 1702911600000000)]) / 3600) = 3"
  by (simp add: py_sum_def sum_left_to_right_def total_seconds_def round_double_eval)

text \<open>
  C7 fails as stated. The start of the second event fails to parse in both formats, and its
  end is a number: \<^verbatim>\<open>parse_timestamp\<close> is called on the end as well, \<^verbatim>\<open>strptime\<close>
  raises \<^verbatim>\<open>TypeError\<close>, and \<^verbatim>\<open>except ValueError\<close> does not catch it. The exception
  leaves \<^verbatim>\<open>calculate_total_hours\<close>, and the two good events are not aggregated.
\<close>

theorem non_string_timestamp_raises:
  "parse_text strptime_stub ''not-a-date'' = None \<and>
   calculate_total_hours strptime_stub sum_left_to_right
     [mk_event ''2023-12-18T10:00:00Z'' ''2023-12-18T12:00:00Z'',
      JDict [(''start'', JStr ''not-a-date''), (''end'', JNum 1702900800)],
      mk_event ''2023-12-18T14:00:00Z'' ''2023-12-18T15:00:00Z''] = Inl TypeError"
  by (simp add: calculate_total_hours_def event_interval_def mk_event_def dict_get_def stub_parse)

text \<open>
  C7, amended. \<^verbatim>\<open>parse_timestamp\<close> tries the format with a fractional part and then the
  format without, and returns \<^verbatim>\<open>None\<close> exactly when both raise \<^verbatim>\<open>ValueError\<close>. For
  events with textual timestamps no exception leaves \<^verbatim>\<open>calculate_total_hours\<close>: the
  intervals built are, in order, those of the events whose start and end are both non-empty
  strings that parse, and the total is computed from them. An unusable event contributes no
  interval, and removing it from any event sequence changes neither the intervals nor the
  result. Among the events with textual timestamps the unusable ones are exactly those that
  contribute no interval.
\<close>

theorem dropped_events:
  "(parse_timestamp strptime (JStr ts) = Inr None \<longleftrightarrow>
      strptime ts fmt_millis = Inl ValueError \<and> strptime ts fmt_seconds = Inl ValueError) \<and>
   (\<forall>t. strptime ts fmt_millis = Inr t \<longrightarrow> parse_timestamp strptime (JStr ts) = Inr (Some t)) \<and>
   (\<forall>t. strptime ts fmt_millis = Inl ValueError \<and> strptime ts fmt_seconds = Inr t
        \<longrightarrow> parse_timestamp strptime (JStr ts) = Inr (Some t)) \<and>
   ((\<forall>x \<in> set events. textual x) \<longrightarrow>
      collect_intervals strptime events [] =
        Inr (List.map_filter (usable_interval strptime) events) \<and>
      calculate_total_hours strptime float_sum events =
        Inr (round_double
               (py_sum float_sum
                  (map total_seconds
                     (fst (merge_intervals (List.map_filter (usable_interval strptime) events))))
                / 3600))) \<and>
   (unusable strptime e \<longrightarrow>
      usable_interval strptime e = None \<and>
      event_interval strptime e = Inr None \<and>
      collect_intervals strptime (es1 @ e # es2) [] = collect_intervals strptime (es1 @ es2) [] \<and>
      calculate_total_hours strptime float_sum (es1 @ e # es2) =
        calculate_total_hours strptime float_sum (es1 @ es2)) \<and>
   (textual e \<longrightarrow> (usable_interval strptime e = None \<longleftrightarrow> unusable strptime e))"
proof -
  have a: "parse_timestamp strptime (JStr ts) = Inr None \<longleftrightarrow>
      strptime ts fmt_millis = Inl ValueError \<and> strptime ts fmt_seconds = Inl ValueError"
    using parse_text_None_iff [of strptime ts] by (simp add: fails_both_def)
  have b: "\<forall>t. strptime ts fmt_millis = Inr t \<longrightarrow> parse_timestamp strptime (JStr ts) = Inr (Some t)"
    by (simp add: parse_text_millis)
  have c: "\<forall>t. strptime ts fmt_millis = Inl ValueError \<and> strptime ts fmt_seconds = Inr t
        \<longrightarrow> parse_timestamp strptime (JStr ts) = Inr (Some t)"
    by (simp add: parse_text_seconds)
  have d: "(\<forall>x \<in> set events. textual x) \<longrightarrow>
      collect_intervals strptime events [] =
        Inr (List.map_filter (usable_interval strptime) events) \<and>
      calculate_total_hours strptime float_sum events =
        Inr (round_double
               (py_sum float_sum
                  (map total_seconds
                     (fst (merge_intervals (List.map_filter (usable_interval strptime) events))))
                / 3600))"
    using collect_intervals_textual [of events strptime "[]"]
      calculate_total_hours_textual [of events strptime float_sum]
    by simp
  have e: "unusable strptime e \<longrightarrow>
      usable_interval strptime e = None \<and>
      event_interval strptime e = Inr None \<and>
      collect_intervals strptime (es1 @ e # es2) [] = collect_intervals strptime (es1 @ es2) [] \<and>
      calculate_total_hours strptime float_sum (es1 @ e # es2) =
        calculate_total_hours strptime float_sum (es1 @ es2)"
    by (simp add: calculate_total_hours_def collect_intervals_drop unusable_event_interval
          unusable_usable_interval)
  have f: "textual e \<longrightarrow> (usable_interval strptime e = None \<longleftrightarrow> unusable strptime e)"
    using textual_unusable_iff [of e strptime] by blast
  from a b c d e f show ?thesis by blast
qed

text \<open>
  Both example timestamps parse and \<^verbatim>\<open>not-a-date\<close> does not. With an event that starts
  at \<^verbatim>\<open>not-a-date\<close> between the events 10:00--12:00 and 14:00--15:00 the total is 3
  hours, as it is without it.
\<close>

theorem dropped_events_witness:
  "parse_timestamp strptime_stub (JStr ''2023-12-18T04:07:13.000Z'') = Inr (Some 1702872433000000) \<and>
   parse_timestamp strptime_stub (JStr ''2023-12-18T04:07:13Z'') = Inr (Some 1702872433000000) \<and>
   parse_timestamp strptime_stub (JStr ''not-a-date'') = Inr None \<and>
   unusable strptime_stub bad_start \<and>
   calculate_total_hours strptime_stub sum_left_to_right
     ([mk_event ''2023-12-18T10:00:00Z'' ''2023-12-18T12:00:00Z''] @ bad_start #
      [mk_event ''2023-12-18T14:00:00Z'' ''2023-12-18T15:00:00Z'']) = Inr 3 \<and>
   calculate_total_hours strptime_stub sum_left_to_right
     ([mk_event ''2023-12-18T10:00:00Z'' ''2023-12-18T12:00:00Z''] @
      [mk_event ''2023-12-18T14:00:00Z'' ''2023-12-18T15:00:00Z'']) = Inr 3"
proof -
  note t1 = dropped_events [of strptime_stub "''2023-12-18T04:07:13.000Z''"]
  note t2 = dropped_events [of strptime_stub "''2023-12-18T04:07:13Z''"]
  note t3 = dropped_events [of strptime_stub "''not-a-date''"
      "[mk_event ''2023-12-18T10:00:00Z'' ''2023-12-18T12:00:00Z''] @
       [mk_event ''2023-12-18T14:00:00Z'' ''2023-12-18T15:00:00Z'']"
      sum_left_to_right bad_start
      "[mk_event ''2023-12-18T10:00:00Z'' ''2023-12-18T12:00:00Z'']"
      "[mk_event ''2023-12-18T14:00:00Z'' ''2023-12-18T15:00:00Z'']"]
  have a: "parse_timestamp strptime_stub (JStr ''2023-12-18T04:07:13.000Z'') = Inr (Some 1702872433000000)"
    using t1 stub_millis by blast
  have b: "parse_timestamp strptime_stub (JStr ''2023-12-18T04:07:13Z'') = Inr (Some 1702872433000000)"
    using t2 stub_seconds_a stub_seconds_b by blast
  have c: "parse_timestamp strptime_stub (JStr ''not-a-date'') = Inr None"
    using t3 stub_bad by blast
  have tx: "\<forall>x \<in> set ([mk_event ''2023-12-18T10:00:00Z'' ''2023-12-18T12:00:00Z''] @
       [mk_event ''2023-12-18T14:00:00Z'' ''2023-12-18T15:00:00Z'']). textual x"
    by (simp add: textual_def mk_event_def dict_get_def)
  have v: "calculate_total_hours strptime_stub sum_left_to_right
     ([mk_event ''2023-12-18T10:00:00Z'' ''2023-12-18T12:00:00Z''] @
      [mk_event ''2023-12-18T14:00:00Z'' ''2023-12-18T15:00:00Z'']) = Inr 3"
    using t3 [THEN conjunct2, THEN conjunct2, THEN conjunct2, THEN conjunct1, THEN mp, OF tx,
        THEN conjunct2]
    by (simp only: three_events_usable two_intervals_merged two_intervals_hours)
  have w: "calculate_total_hours strptime_stub sum_left_to_right
     ([mk_event ''2023-12-18T10:00:00Z'' ''2023-12-18T12:00:00Z''] @ bad_start #
      [mk_event ''2023-12-18T14:00:00Z'' ''2023-12-18T15:00:00Z'']) = Inr 3"
    using t3 [THEN conjunct2, THEN conjunct2, THEN conjunct2, THEN conjunct2, THEN conjunct1,
        THEN mp, OF bad_start_unusable] v
    by simp
  from a b c bad_start_unusable v w show ?thesis by (intro conjI)
qed

lemma one_page_fetch:
  "fetch_fishing_events (one_page evs) vid sd ed =
     Some (evs, [\<lparr>p_vessel = vid, p_start_date = sd, p_end_date = ed, p_offset = 0\<rparr>])"
  unfolding fetch_fishing_events_def
  by (subst fetch_loop.simps) (simp add: one_page_def)

section \<open>Proofs: classification\<close>

lemma registry_answer_details:
  "get_vessel_details (registry_answer vid flag) imo =
     Some \<lparr>d_imo = imo,
           d_vessel_id = vid,
           d_name = JStr ''Unknown'', d_flag = flag\<rparr>"
  by (simp add: get_vessel_details_def registry_answer_def vessel_to_details_def dict_get_def
        dict_get_default_def fill_self_reported_def Let_def)

text \<open>
  C5. For every identity record whose flag differs from the jurisdiction filter (the constant
  \<^verbatim>\<open>"SEN"\<close> in the code), \<^verbatim>\<open>process_vessel\<close> returns the label
  \<^verbatim>\<open>Suspect (Non-Senegalese flag)\<close> with no total hours, and sends no request to the events
  endpoint. This holds whatever the resolved id is, so in particular when it is not null.
\<close>

theorem flag_mismatch_short_circuit:
  assumes "get_vessel_details fetch_vessel_data imo = Some d"
    and "d_flag d \<noteq> JStr ''SEN''"
  shows "process_vessel fetch_vessel_data session_get strptime float_sum imo start_date end_date
             threshold =
           Some (Inr (\<lparr>r_imo = imo, r_vessel_name = d_name d, r_vessel_id = d_vessel_id d,
                   r_flag = d_flag d, r_total_fishing_hours = None,
                   r_classification = ''Suspect (Non-Senegalese flag)''\<rparr>, []))"
  using assms by (simp add: process_vessel_def)

text \<open>
  The scenario of the specification with flag \<^verbatim>\<open>ESP\<close>: resolved id \<^verbatim>\<open>abc123\<close>, label
  Suspect-Flag, no hours, no request.
\<close>

theorem flag_mismatch_short_circuit_witness:
  "get_vessel_details (registry_answer (JStr ''abc123'') (JStr ''ESP'')) ''9999999'' =
     Some \<lparr>d_imo = ''9999999'', d_vessel_id = JStr ''abc123'', d_name = JStr ''Unknown'',
           d_flag = JStr ''ESP''\<rparr> \<and>
   process_vessel (registry_answer (JStr ''abc123'') (JStr ''ESP'')) (one_page scenario_events)
       strptime_stub sum_left_to_right ''9999999'' ''2015-01-01'' ''2025-12-31'' 3 =
     Some (Inr (\<lparr>r_imo = ''9999999'', r_vessel_name = JStr ''Unknown'', r_vessel_id = JStr ''abc123'',
             r_flag = JStr ''ESP'', r_total_fishing_hours = None,
             r_classification = ''Suspect (Non-Senegalese flag)''\<rparr>, []))"
proof -
  have d: "get_vessel_details (registry_answer (JStr ''abc123'') (JStr ''ESP'')) ''9999999'' =
     Some \<lparr>d_imo = ''9999999'', d_vessel_id = JStr ''abc123'', d_name = JStr ''Unknown'',
           d_flag = JStr ''ESP''\<rparr>"
    by (rule registry_answer_details)
  have f: "d_flag \<lparr>d_imo = ''9999999'', d_vessel_id = JStr ''abc123'', d_name = JStr ''Unknown'',
           d_flag = JStr ''ESP''\<rparr> \<noteq> JStr ''SEN''" by simp
  show ?thesis
    using d flag_mismatch_short_circuit [OF d f, of "one_page scenario_events" strptime_stub
        sum_left_to_right "''2015-01-01''" "''2025-12-31''" 3]
    by simp
qed

text \<open>
  C1 fails as stated: an identity record with a null vessel id and flag \<^verbatim>\<open>ESP\<close> is
  labelled \<^verbatim>\<open>Suspect (Non-Senegalese flag)\<close>. The flag is compared before the vessel id
  is looked at.
\<close>

theorem null_id_labelled_by_flag_first:
  "get_vessel_details (registry_answer JNull (JStr ''ESP'')) ''9999999'' =
     Some \<lparr>d_imo = ''9999999'', d_vessel_id = JNull, d_name = JStr ''Unknown'',
           d_flag = JStr ''ESP''\<rparr> \<and>
   process_vessel (registry_answer JNull (JStr ''ESP'')) (one_page scenario_events)
       strptime_stub sum_left_to_right ''9999999'' ''2015-01-01'' ''2025-12-31'' 3 =
     Some (Inr (\<lparr>r_imo = ''9999999'', r_vessel_name = JStr ''Unknown'', r_vessel_id = JNull,
             r_flag = JStr ''ESP'', r_total_fishing_hours = None,
             r_classification = ''Suspect (Non-Senegalese flag)''\<rparr>, []))"
  by (simp add: registry_answer_details process_vessel_def)

text \<open>
  C1, amended. For every identity record whose resolved id is null, \<^verbatim>\<open>process_vessel\<close>
  returns no total hours and sends no request to the events endpoint. The flag comparison
  comes first: the label is \<^verbatim>\<open>Suspect (Non-Senegalese flag)\<close> when the flag differs from
  \<^verbatim>\<open>"SEN"\<close>, and \<^verbatim>\<open>No vessel_id\<close> when the flag is \<^verbatim>\<open>"SEN"\<close>.
\<close>

theorem null_id_classification:
  assumes "get_vessel_details fetch_vessel_data imo = Some d"
    and "d_vessel_id d = JNull"
  shows "process_vessel fetch_vessel_data session_get strptime float_sum imo start_date end_date
             threshold =
           Some (Inr (\<lparr>r_imo = imo, r_vessel_name = d_name d, r_vessel_id = JNull,
                   r_flag = d_flag d, r_total_fishing_hours = None,
                   r_classification =
                     (if d_flag d \<noteq> JStr ''SEN'' then ''Suspect (Non-Senegalese flag)''
                      else ''No vessel_id'')\<rparr>, []))"
  using assms by (simp add: process_vessel_def)

text \<open>
  A record with a null vessel id and flag \<^verbatim>\<open>SEN\<close> is labelled \<^verbatim>\<open>No vessel_id\<close>.
\<close>

theorem null_id_classification_witness:
  "process_vessel (registry_answer JNull (JStr ''SEN'')) (one_page scenario_events)
       strptime_stub sum_left_to_right ''9999999'' ''2015-01-01'' ''2025-12-31'' 3 =
     Some (Inr (\<lparr>r_imo = ''9999999'', r_vessel_name = JStr ''Unknown'', r_vessel_id = JNull,
             r_flag = JStr ''SEN'', r_total_fishing_hours = None,
             r_classification = ''No vessel_id''\<rparr>, []))"
proof -
  have d: "get_vessel_details (registry_answer JNull (JStr ''SEN'')) ''9999999'' =
     Some \<lparr>d_imo = ''9999999'', d_vessel_id = JNull, d_name = JStr ''Unknown'',
           d_flag = JStr ''SEN''\<rparr>"
    by (rule registry_answer_details)
  have v: "d_vessel_id \<lparr>d_imo = ''9999999'', d_vessel_id = JNull, d_name = JStr ''Unknown'',
           d_flag = JStr ''SEN''\<rparr> = JNull" by simp
  show ?thesis
    using null_id_classification [OF d v, of "one_page scenario_events" strptime_stub
        sum_left_to_right "''2015-01-01''" "''2025-12-31''" 3]
    by simp
qed

lemma scenario_usable:
  "List.map_filter (usable_interval strptime_stub) scenario_events =
     [(1702893600000000, 1702900800000000), (1702899000000000, 1702904400000000),
      (1702908000000000, 1702911600000000)]"
  by (simp add: List.map_filter_simps scenario_events_def usable_interval_def mk_event_def
        dict_get_def stub_parse)

lemma scenario_merged:
  "fst (merge_intervals
     [(1702893600000000, 1702900800000000), (1702899000000000, 1702904400000000),
      (1702908000000000, 1702911600000000)]) =
     [(1702893600000000, 1702904400000000), (1702908000000000, 1702911600000000)]"
  by (simp add: merge_intervals_def Let_def)

lemma scenario_hours:
  "round_double
     (py_sum sum_left_to_right
        (map total_seconds
           [(1702893600000000, 1702904400000000), (1702908000000000, 1702911600000000)]) / 3600) = 4"
  by (simp add: py_sum_def sum_left_to_right_def total_seconds_def round_double_eval)

lemma scenario_textual: "\<forall>e \<in> set scenario_events. textual e"
  by (simp add: scenario_events_def textual_def mk_event_def dict_get_def)

lemma short_usable:
  "List.map_filter (usable_interval strptime_stub) [short_event] =
     [(1702893600000000, 1702893960000000)]"
  by (simp add: List.map_filter_simps short_event_def usable_interval_def mk_event_def
        dict_get_def stub_parse)

lemma short_merged:
  "fst (merge_intervals [(1702893600000000, 1702893960000000)]) =
     [(1702893600000000, 1702893960000000)]"
  by (simp add: merge_intervals_def Let_def)

lemma short_hours:
  "round_double
     (py_sum sum_left_to_right (map total_seconds [(1702893600000000, 1702893960000000)]) / 3600)
   = 3602879701896397 / 36028797018963968"
proof -
  have "py_sum sum_left_to_right (map total_seconds [(1702893600000000, 1702893960000000)]) = 360"
    by (simp add: py_sum_def sum_left_to_right_def total_seconds_def round_double_eval)
  then show ?thesis using round_double_eval(8) by simp
qed

lemma short_textual: "\<forall>e \<in> set [short_event]. textual e"
  by (simp add: short_event_def textual_def mk_event_def dict_get_def)

text \<open>
  C6 fails as stated. A vessel id that is not null but empty passes the flag check and is
  then rejected by \<^verbatim>\<open>if not vessel_id\<close>: the label is \<^verbatim>\<open>No vessel_id\<close>, no events
  are fetched and no hours are computed. And with a proper vessel id, an event whose end is
  a number makes \<^verbatim>\<open>process_vessel\<close> raise \<^verbatim>\<open>TypeError\<close> instead of returning a label.
\<close>

theorem empty_id_not_classified_by_effort:
  "JStr [] \<noteq> JNull \<and>
   get_vessel_details (registry_answer (JStr []) (JStr ''SEN'')) ''9999999'' =
     Some \<lparr>d_imo = ''9999999'', d_vessel_id = JStr [], d_name = JStr ''Unknown'',
           d_flag = JStr ''SEN''\<rparr> \<and>
   process_vessel (registry_answer (JStr []) (JStr ''SEN'')) (one_page scenario_events)
       strptime_stub sum_left_to_right ''9999999'' ''2015-01-01'' ''2025-12-31'' 3 =
     Some (Inr (\<lparr>r_imo = ''9999999'', r_vessel_name = JStr ''Unknown'', r_vessel_id = JNull,
             r_flag = JStr ''SEN'', r_total_fishing_hours = None,
             r_classification = ''No vessel_id''\<rparr>, [])) \<and>
   process_vessel (registry_answer (JStr ''abc123'') (JStr ''SEN'')) (one_page [numeric_end_event])
       strptime_stub sum_left_to_right ''9999999'' ''2015-01-01'' ''2025-12-31'' 3 =
     Some (Inl TypeError)"
proof -
  have "calculate_total_hours strptime_stub sum_left_to_right [numeric_end_event] = Inl TypeError"
    by (simp add: calculate_total_hours_def event_interval_def numeric_end_event_def dict_get_def
          stub_parse)
  then show ?thesis
    by (simp add: registry_answer_details process_vessel_def one_page_fetch)
qed

text \<open>
  C6, amended. For every identity record whose resolved id is truthy (neither null nor
  empty) and whose flag is \<^verbatim>\<open>"SEN"\<close>, and for every sequence of events with textual
  timestamps that the events endpoint returns, \<^verbatim>\<open>process_vessel\<close> reports the total
  hours of that sequence and the label \<^verbatim>\<open>Suspect (Low fishing effort)\<close> exactly when the
  total is below the threshold, \<^verbatim>\<open>Genuine\<close> otherwise (so also when the total equals the
  threshold). The intervals are built from exactly the events whose start and end are both
  non-empty strings that parse; the total is the float sum of the durations of the merged
  intervals in seconds, divided by \<^verbatim>\<open>3600.0\<close> in float arithmetic.
\<close>

theorem effort_classification:
  assumes "get_vessel_details fetch_vessel_data imo = Some d"
    and "truthy (d_vessel_id d)"
    and "d_flag d = JStr ''SEN''"
    and "fetch_fishing_events session_get (d_vessel_id d) start_date end_date = Some (events, sent)"
    and "\<forall>e \<in> set events. textual e"
  shows "(let total_hours =
            round_double
              (py_sum float_sum
                 (map total_seconds
                    (fst (merge_intervals (List.map_filter (usable_interval strptime) events))))
               / 3600)
          in calculate_total_hours strptime float_sum events = Inr total_hours \<and>
             process_vessel fetch_vessel_data session_get strptime float_sum imo start_date
                 end_date threshold =
               Some (Inr (\<lparr>r_imo = imo, r_vessel_name = d_name d, r_vessel_id = d_vessel_id d,
                            r_flag = d_flag d, r_total_fishing_hours = Some total_hours,
                            r_classification =
                              (if total_hours < threshold then ''Suspect (Low fishing effort)''
                               else ''Genuine'')\<rparr>, sent)))"
  using assms calculate_total_hours_textual [of events strptime float_sum]
  by (simp add: process_vessel_def Let_def)

text \<open>
  The worked example: 10:00--12:00, 11:30--13:00 and 14:00--15:00 give 4.0 hours, which is
  \<^verbatim>\<open>Genuine\<close> against the thresholds 3 and 4 and low effort against 500. One event of
  six minutes gives the double nearest to 0.1, which is \<^verbatim>\<open>Genuine\<close> against the
  threshold \<^verbatim>\<open>0.1\<close>, the same double.
\<close>

theorem effort_classification_witness:
  "process_vessel (registry_answer (JStr ''abc123'') (JStr ''SEN'')) (one_page scenario_events)
       strptime_stub sum_left_to_right ''9999999'' ''2015-01-01'' ''2025-12-31'' 3 =
     Some (Inr (\<lparr>r_imo = ''9999999'', r_vessel_name = JStr ''Unknown'',
                  r_vessel_id = JStr ''abc123'', r_flag = JStr ''SEN'',
                  r_total_fishing_hours = Some 4, r_classification = ''Genuine''\<rparr>,
           [\<lparr>p_vessel = JStr ''abc123'', p_start_date = ''2015-01-01'', p_end_date = ''2025-12-31'',
             p_offset = 0\<rparr>])) \<and>
   process_vessel (registry_answer (JStr ''abc123'') (JStr ''SEN'')) (one_page scenario_events)
       strptime_stub sum_left_to_right ''9999999'' ''2015-01-01'' ''2025-12-31'' 4 =
     Some (Inr (\<lparr>r_imo = ''9999999'', r_vessel_name = JStr ''Unknown'',
                  r_vessel_id = JStr ''abc123'', r_flag = JStr ''SEN'',
                  r_total_fishing_hours = Some 4, r_classification = ''Genuine''\<rparr>,
           [\<lparr>p_vessel = JStr ''abc123'', p_start_date = ''2015-01-01'', p_end_date = ''2025-12-31'',
             p_offset = 0\<rparr>])) \<and>
   process_vessel (registry_answer (JStr ''abc123'') (JStr ''SEN'')) (one_page scenario_events)
       strptime_stub sum_left_to_right ''9999999'' ''2015-01-01'' ''2025-12-31'' 500 =
     Some (Inr (\<lparr>r_imo = ''9999999'', r_vessel_name = JStr ''Unknown'',
                  r_vessel_id = JStr ''abc123'', r_flag = JStr ''SEN'',
                  r_total_fishing_hours = Some 4,
                  r_classification = ''Suspect (Low fishing effort)''\<rparr>,
           [\<lparr>p_vessel = JStr ''abc123'', p_start_date = ''2015-01-01'', p_end_date = ''2025-12-31'',
             p_offset = 0\<rparr>])) \<and>
   process_vessel (registry_answer (JStr ''abc123'') (JStr ''SEN'')) (one_page [short_event])
       strptime_stub sum_left_to_right ''9999999'' ''2015-01-01'' ''2025-12-31''
       (3602879701896397 / 36028797018963968) =
     Some (Inr (\<lparr>r_imo = ''9999999'', r_vessel_name = JStr ''Unknown'',
                  r_vessel_id = JStr ''abc123'', r_flag = JStr ''SEN'',
                  r_total_fishing_hours = Some (3602879701896397 / 36028797018963968),
                  r_classification = ''Genuine''\<rparr>,
           [\<lparr>p_vessel = JStr ''abc123'', p_start_date = ''2015-01-01'', p_end_date = ''2025-12-31'',
             p_offset = 0\<rparr>]))"
proof -
  let ?d = "\<lparr>d_imo = ''9999999'', d_vessel_id = JStr ''abc123'', d_name = JStr ''Unknown'',
           d_flag = JStr ''SEN''\<rparr>"
  let ?sent = "[\<lparr>p_vessel = JStr ''abc123'', p_start_date = ''2015-01-01'',
                p_end_date = ''2025-12-31'', p_offset = 0\<rparr>]"
  have d: "get_vessel_details (registry_answer (JStr ''abc123'') (JStr ''SEN'')) ''9999999'' = Some ?d"
    by (rule registry_answer_details)
  have v: "truthy (d_vessel_id ?d)" by simp
  have f: "d_flag ?d = JStr ''SEN''" by simp
  have e: "fetch_fishing_events (one_page scenario_events) (d_vessel_id ?d) ''2015-01-01'' ''2025-12-31''
       = Some (scenario_events, ?sent)"
    by (simp add: one_page_fetch)
  have e': "fetch_fishing_events (one_page [short_event]) (d_vessel_id ?d) ''2015-01-01'' ''2025-12-31''
       = Some ([short_event], ?sent)"
    by (simp add: one_page_fetch)
  note t = effort_classification [OF d v f e scenario_textual,
      where strptime = strptime_stub and float_sum = sum_left_to_right,
      unfolded Let_def scenario_usable scenario_merged scenario_hours, THEN conjunct2]
  note t' = effort_classification [OF d v f e' short_textual,
      where strptime = strptime_stub and float_sum = sum_left_to_right,
      unfolded Let_def short_usable short_merged short_hours, THEN conjunct2]
  show ?thesis
    using t [of 3] t [of 4] t [of 500] t' [of "3602879701896397 / 36028797018963968"]
    by simp
qed

text \<open>
  C10 fails as stated: with an empty, non-null vessel id, a matching flag and an empty event
  sequence, the total hours are null, not 0, and the label is \<^verbatim>\<open>No vessel_id\<close>.
\<close>

theorem empty_id_no_zero_hours:
  "JStr [] \<noteq> JNull \<and>
   fetch_fishing_events (one_page []) (JStr []) ''2015-01-01'' ''2025-12-31'' =
     Some ([], [\<lparr>p_vessel = JStr [], p_start_date = ''2015-01-01'', p_end_date = ''2025-12-31'',
                 p_offset = 0\<rparr>]) \<and>
   process_vessel (registry_answer (JStr []) (JStr ''SEN'')) (one_page [])
       strptime_stub sum_left_to_right ''9999999'' ''2015-01-01'' ''2025-12-31'' 1 =
     Some (Inr (\<lparr>r_imo = ''9999999'', r_vessel_name = JStr ''Unknown'', r_vessel_id = JNull,
             r_flag = JStr ''SEN'', r_total_fishing_hours = None,
             r_classification = ''No vessel_id''\<rparr>, []))"
  by (simp add: registry_answer_details process_vessel_def one_page_fetch)

text \<open>
  C10, amended. For every identity record whose resolved id is truthy (neither null nor
  empty) and whose flag is \<^verbatim>\<open>"SEN"\<close>: if the event sequence is empty, or every event of
  it is unusable, no exception is raised, the total hours are exactly 0.0 and, for every
  strictly positive threshold, the label is \<^verbatim>\<open>Suspect (Low fishing effort)\<close>.
\<close>

theorem no_usable_events_low_effort:
  assumes "get_vessel_details fetch_vessel_data imo = Some d"
    and "truthy (d_vessel_id d)"
    and "d_flag d = JStr ''SEN''"
    and "fetch_fishing_events session_get (d_vessel_id d) start_date end_date = Some (events, sent)"
    and "\<forall>e \<in> set events. unusable strptime e"
    and "0 < threshold"
  shows "calculate_total_hours strptime float_sum events = Inr 0 \<and>
         process_vessel fetch_vessel_data session_get strptime float_sum imo start_date end_date
             threshold =
           Some (Inr (\<lparr>r_imo = imo, r_vessel_name = d_name d, r_vessel_id = d_vessel_id d,
                   r_flag = d_flag d, r_total_fishing_hours = Some 0,
                   r_classification = ''Suspect (Low fishing effort)''\<rparr>, sent))"
  using assms calculate_total_hours_zero [of events strptime float_sum]
  by (simp add: process_vessel_def Let_def)

text \<open>
  Two unusable events, and no event at all, against the threshold 500.
\<close>

theorem no_usable_events_low_effort_witness:
  "process_vessel (registry_answer (JStr ''abc123'') (JStr ''SEN''))
       (one_page [bad_start, JDict [(''end'', JStr ''2023-12-18T12:00:00Z'')]])
       strptime_stub sum_left_to_right ''9999999'' ''2015-01-01'' ''2025-12-31'' 500 =
     Some (Inr (\<lparr>r_imo = ''9999999'', r_vessel_name = JStr ''Unknown'', r_vessel_id = JStr ''abc123'',
             r_flag = JStr ''SEN'', r_total_fishing_hours = Some 0,
             r_classification = ''Suspect (Low fishing effort)''\<rparr>,
           [\<lparr>p_vessel = JStr ''abc123'', p_start_date = ''2015-01-01'', p_end_date = ''2025-12-31'',
             p_offset = 0\<rparr>])) \<and>
   process_vessel (registry_answer (JStr ''abc123'') (JStr ''SEN'')) (one_page [])
       strptime_stub sum_left_to_right ''9999999'' ''2015-01-01'' ''2025-12-31'' 500 =
     Some (Inr (\<lparr>r_imo = ''9999999'', r_vessel_name = JStr ''Unknown'', r_vessel_id = JStr ''abc123'',
             r_flag = JStr ''SEN'', r_total_fishing_hours = Some 0,
             r_classification = ''Suspect (Low fishing effort)''\<rparr>,
           [\<lparr>p_vessel = JStr ''abc123'', p_start_date = ''2015-01-01'', p_end_date = ''2025-12-31'',
             p_offset = 0\<rparr>]))"
proof -
  let ?d = "\<lparr>d_imo = ''9999999'', d_vessel_id = JStr ''abc123'', d_name = JStr ''Unknown'',
           d_flag = JStr ''SEN''\<rparr>"
  let ?evs = "[bad_start, JDict [(''end'', JStr ''2023-12-18T12:00:00Z'')]]"
  let ?sent = "[\<lparr>p_vessel = JStr ''abc123'', p_start_date = ''2015-01-01'',
                p_end_date = ''2025-12-31'', p_offset = 0\<rparr>]"
  have d: "get_vessel_details (registry_answer (JStr ''abc123'') (JStr ''SEN'')) ''9999999'' = Some ?d"
    by (rule registry_answer_details)
  have v: "truthy (d_vessel_id ?d)" by simp
  have f: "d_flag ?d = JStr ''SEN''" by simp
  have e1: "fetch_fishing_events (one_page ?evs) (d_vessel_id ?d) ''2015-01-01'' ''2025-12-31''
       = Some (?evs, ?sent)"
    by (simp add: one_page_fetch)
  have e2: "fetch_fishing_events (one_page []) (d_vessel_id ?d) ''2015-01-01'' ''2025-12-31''
       = Some ([], ?sent)"
    by (simp add: one_page_fetch)
  have u1: "\<forall>e \<in> set ?evs. unusable strptime_stub e"
    by (simp add: bad_start_unusable) (simp add: unusable_def dict_get_def)
  have u2: "\<forall>e \<in> set []. unusable strptime_stub e" by simp
  have p: "(0::real) < 500" by simp
  show ?thesis
    using no_usable_events_low_effort [OF d v f e1 u1 p, where float_sum = sum_left_to_right]
          no_usable_events_low_effort [OF d v f e2 u2 p, where float_sum = sum_left_to_right]
    by simp
qed

section \<open>Proofs: vessel details\<close>

text \<open>
  C4 fails as stated. In \<^verbatim>\<open>get_vessel_details\<close> the registry sub-record carries the
  ship name \<^verbatim>\<open>REGISTRY NAME\<close>, yet the name of the identity record is the self-reported
  \<^verbatim>\<open>SELF NAME\<close>; the vessel id and the flag do come from the registry sub-record. In
  \<^verbatim>\<open>extract_ssvids_from_response\<close> the registry sub-record has no call sign and the
  self-reported one has, yet the details kept are the registry's alone, with an empty call
  sign: nothing is filled in from the self-reported sub-record.
\<close>

theorem display_name_ignores_registry:
  "get_vessel_details two_source_answer ''9999999'' =
     Some \<lparr>d_imo = ''9999999'', d_vessel_id = JStr ''reg-id'', d_name = JStr ''SELF NAME'',
           d_flag = JStr ''SEN''\<rparr> \<and>
   snd (snd (extract_ssvids_from_response remdups [overlapping_vessel])) ''663123456'' =
     Some \<lparr>dt_shipname = Some ''REGISTRY NAME'', dt_imo = Some [], dt_callsign = Some [],
           dt_flag = Some ''SEN''\<rparr>"
proof -
  have "get_vessel_details two_source_answer ''9999999'' =
     Some \<lparr>d_imo = ''9999999'', d_vessel_id = JStr ''reg-id'', d_name = JStr ''SELF NAME'',
           d_flag = JStr ''SEN''\<rparr>"
    by (simp add: get_vessel_details_def two_source_answer_def vessel_to_details_def dict_get_def
          dict_get_default_def fill_self_reported_def Let_def)
  moreover have "snd (snd (extract_ssvids_from_response remdups [overlapping_vessel])) ''663123456'' =
     Some \<lparr>dt_shipname = Some ''REGISTRY NAME'', dt_imo = Some [], dt_callsign = Some [],
           dt_flag = Some ''SEN''\<rparr>"
    by (simp add: extract_ssvids_from_response_def note_vessel_def note_info_def
          overlapping_vessel_def detail_of_def get_or_empty_def truthy_str_def)
  ultimately show ?thesis by (intro conjI)
qed

lemma registry_step:
  assumes "(if truthy j then from_registry j r0 else Some r0) = Some r1"
    and "d_flag r0 = JNull" and "d_vessel_id r0 = JNull"
  shows "r1 = r0\<lparr>d_flag := registry_value (sub_record j) ''flag'',
                 d_vessel_id := registry_value (sub_record j) ''id''\<rparr>"
proof (cases j)
  case (JList xs)
  show ?thesis
  proof (cases xs)
    case Nil
    then show ?thesis using assms JList by (simp add: registry_value_def)
  next
    case (Cons x rest)
    show ?thesis
    proof (cases x)
      case (JDict kvs)
      then show ?thesis using assms JList Cons by (auto simp: registry_value_def)
    qed (use assms JList Cons in \<open>simp_all\<close>)
  qed
next
  case (JDict kvs)
  then show ?thesis using assms by (cases "kvs = []") (auto simp: registry_value_def)
qed (use assms in \<open>auto simp: registry_value_def split: if_splits\<close>)

lemma self_reported_step:
  assumes "(if truthy j then from_self_reported j r1 else Some r1) = Some r2"
  shows "r2 = (case sub_record j of None \<Rightarrow> r1 | Some s \<Rightarrow> fill_self_reported s r1)"
proof (cases j)
  case (JList xs)
  show ?thesis
  proof (cases xs)
    case Nil
    then show ?thesis using assms JList by simp
  next
    case (Cons x rest)
    show ?thesis
    proof (cases x)
      case (JDict kvs)
      then show ?thesis using assms JList Cons by auto
    qed (use assms JList Cons in \<open>simp_all\<close>)
  qed
next
  case (JDict kvs)
  then show ?thesis using assms by (cases "kvs = []") auto
qed (use assms in \<open>auto split: if_splits\<close>)

lemma vessel_to_details_Some:
  assumes "vessel_to_details imo vessel = Some d"
  shows "\<exists>kvs. vessel = JDict kvs \<and>
     d = \<lparr>d_imo = imo,
          d_vessel_id =
            (let i = prefer_registry (sub_record (dict_get kvs ''registryInfo''))
                       (sub_record (dict_get kvs ''selfReportedInfo'')) ''id''
             in if \<not> truthy i \<and> truthy (dict_get kvs ''id'') then dict_get kvs ''id'' else i),
          d_name = self_reported_name (sub_record (dict_get kvs ''selfReportedInfo'')),
          d_flag = prefer_registry (sub_record (dict_get kvs ''registryInfo''))
                     (sub_record (dict_get kvs ''selfReportedInfo'')) ''flag''\<rparr>"
proof -
  obtain kvs where v: "vessel = JDict kvs"
    using assms by (cases vessel) (simp_all add: vessel_to_details_def)
  let ?r0 = "\<lparr>d_imo = imo, d_vessel_id = JNull, d_name = JStr ''Unknown'', d_flag = JNull\<rparr>"
  let ?reg = "dict_get kvs ''registryInfo''" and ?self = "dict_get kvs ''selfReportedInfo''"
  obtain r1 where r1: "(if truthy ?reg then from_registry ?reg ?r0 else Some ?r0) = Some r1"
    using assms v by (auto simp: vessel_to_details_def Let_def split: option.splits)
  obtain r2 where r2: "(if truthy ?self then from_self_reported ?self r1 else Some r1) = Some r2"
    using assms v r1 by (auto simp: vessel_to_details_def Let_def split: option.splits)
  have d: "d = (if \<not> truthy (d_vessel_id r2) \<and> truthy (dict_get kvs ''id'')
                then r2\<lparr>d_vessel_id := dict_get kvs ''id''\<rparr> else r2)"
    using assms v r1 r2 by (auto simp: vessel_to_details_def Let_def split: option.splits)
  have e1: "r1 = ?r0\<lparr>d_flag := registry_value (sub_record ?reg) ''flag'',
                      d_vessel_id := registry_value (sub_record ?reg) ''id''\<rparr>"
    using registry_step [OF r1] by simp
  have e2: "r2 = (case sub_record ?self of None \<Rightarrow> r1 | Some s \<Rightarrow> fill_self_reported s r1)"
    using self_reported_step [OF r2] .
  have "d = \<lparr>d_imo = imo,
          d_vessel_id =
            (let i = prefer_registry (sub_record ?reg) (sub_record ?self) ''id''
             in if \<not> truthy i \<and> truthy (dict_get kvs ''id'') then dict_get kvs ''id'' else i),
          d_name = self_reported_name (sub_record ?self),
          d_flag = prefer_registry (sub_record ?reg) (sub_record ?self) ''flag''\<rparr>"
    unfolding d e2 e1
    by (cases "sub_record ?self")
       (simp_all add: fill_self_reported_def prefer_registry_def self_reported_name_def Let_def)
  then show ?thesis using v by blast
qed

lemma get_vessel_details_Some:
  assumes "get_vessel_details fetch_vessel_data imo = Some d"
  shows "\<exists>body kvs others.
     fetch_vessel_data imo = Some (JDict body) \<and>
     dict_get body ''entries'' = JList (JDict kvs # others) \<and>
     d = \<lparr>d_imo = imo,
          d_vessel_id =
            (let i = prefer_registry (sub_record (dict_get kvs ''registryInfo''))
                       (sub_record (dict_get kvs ''selfReportedInfo'')) ''id''
             in if \<not> truthy i \<and> truthy (dict_get kvs ''id'') then dict_get kvs ''id'' else i),
          d_name = self_reported_name (sub_record (dict_get kvs ''selfReportedInfo'')),
          d_flag = prefer_registry (sub_record (dict_get kvs ''registryInfo''))
                     (sub_record (dict_get kvs ''selfReportedInfo'')) ''flag''\<rparr>"
proof -
  obtain data where f: "fetch_vessel_data imo = Some data"
    using assms by (auto simp: get_vessel_details_def split: option.splits)
  obtain body where b: "data = JDict body"
    using assms f by (cases data) (auto simp: get_vessel_details_def split: if_splits)
  obtain vessel where p: "py_first (dict_get body ''entries'') = Some vessel"
    and vd: "vessel_to_details imo vessel = Some d"
    using assms f b by (auto simp: get_vessel_details_def split: if_splits option.splits)
  obtain kvs where k: "vessel = JDict kvs" and dd: "d = \<lparr>d_imo = imo,
          d_vessel_id =
            (let i = prefer_registry (sub_record (dict_get kvs ''registryInfo''))
                       (sub_record (dict_get kvs ''selfReportedInfo'')) ''id''
             in if \<not> truthy i \<and> truthy (dict_get kvs ''id'') then dict_get kvs ''id'' else i),
          d_name = self_reported_name (sub_record (dict_get kvs ''selfReportedInfo'')),
          d_flag = prefer_registry (sub_record (dict_get kvs ''registryInfo''))
                     (sub_record (dict_get kvs ''selfReportedInfo'')) ''flag''\<rparr>"
    using vessel_to_details_Some [OF vd] by blast
  obtain others where "dict_get body ''entries'' = JList (JDict kvs # others)"
    using p k by (cases "dict_get body ''entries''" rule: py_first.cases) auto
  then show ?thesis using f b dd by blast
qed

lemma note_info_eq:
  "note_info i (ss, d) =
     (if carries_ssvid i then (ss @ [fst (ssvid_details i)], d(fst (ssvid_details i) \<mapsto> snd (ssvid_details i)))
      else (ss, d))"
  by (auto simp: note_info_def carries_ssvid_def ssvid_details_def truthy_str_def split: option.splits)

lemma fst_ssvid_details: "fst (ssvid_details i) = the (i_ssvid i)"
  by (simp add: ssvid_details_def)

lemma map_add_snoc:
  "d(k \<mapsto> v) ++ map_of ys = d ++ map_of (ys @ [(k, v)])"
proof -
  have "d ++ map_of (ys @ [(k, v)]) = d ++ (map_of [(k, v)] ++ map_of ys)"
    by (simp only: map_of_append)
  also have "\<dots> = (d ++ map_of [(k, v)]) ++ map_of ys"
    by (simp only: map_add_assoc)
  also have "d ++ map_of [(k, v)] = d(k \<mapsto> v)"
    by simp
  finally show ?thesis by simp
qed

lemma fold_note_info:
  "fold note_info xs (ss, d) =
     (ss @ map (the \<circ> i_ssvid) (filter carries_ssvid xs),
      d ++ map_of (rev (map ssvid_details (filter carries_ssvid xs))))"
proof (induction xs arbitrary: ss d)
  case Nil
  show ?case by simp
next
  case (Cons x xs)
  show ?case
  proof (cases "carries_ssvid x")
    case True
    let ?k = "fst (ssvid_details x)" and ?v = "snd (ssvid_details x)"
    have "fold note_info (x # xs) (ss, d) = fold note_info xs (ss @ [?k], d(?k \<mapsto> ?v))"
      using True by (simp add: note_info_eq)
    also have "\<dots> = ((ss @ [?k]) @ map (the \<circ> i_ssvid) (filter carries_ssvid xs),
                      d(?k \<mapsto> ?v) ++ map_of (rev (map ssvid_details (filter carries_ssvid xs))))"
      by (rule Cons.IH)
    also have "d(?k \<mapsto> ?v) ++ map_of (rev (map ssvid_details (filter carries_ssvid xs)))
               = d ++ map_of (rev (map ssvid_details (filter carries_ssvid xs)) @ [(?k, ?v)])"
      by (rule map_add_snoc)
    finally show ?thesis using True by (simp add: fst_ssvid_details)
  next
    case False
    then show ?thesis using Cons.IH [of ss d] by (simp add: note_info_eq)
  qed
qed

lemma note_vessel_fold:
  "note_vessel v (ss, ids, d) =
     (fst (fold note_info (v_selfReportedInfo v @ v_registryInfo v @ [v_own v]) (ss, d)),
      ids @ map (the \<circ> v_id) (filter (truthy_str \<circ> v_id) [v]),
      snd (fold note_info (v_selfReportedInfo v @ v_registryInfo v @ [v_own v]) (ss, d)))"
  by (simp add: note_vessel_def Let_def)

lemma note_vessel_eq:
  "note_vessel v (ss, ids, d) =
     (ss @ map (the \<circ> i_ssvid) (filter carries_ssvid (sub_records [v])),
      ids @ map (the \<circ> v_id) (filter (truthy_str \<circ> v_id) [v]),
      d ++ map_of (rev (map ssvid_details (filter carries_ssvid (sub_records [v])))))"
  unfolding note_vessel_fold fold_note_info
  by (simp add: sub_records_def)

lemma fold_note_vessel:
  "fold note_vessel entries (ss, ids, d) =
     (ss @ map (the \<circ> i_ssvid) (filter carries_ssvid (sub_records entries)),
      ids @ map (the \<circ> v_id) (filter (truthy_str \<circ> v_id) entries),
      d ++ map_of (rev (map ssvid_details (filter carries_ssvid (sub_records entries)))))"
proof (induction entries arbitrary: ss ids d)
  case Nil
  show ?case by (simp add: sub_records_def)
next
  case (Cons v vs)
  have s: "sub_records (v # vs) = sub_records [v] @ sub_records vs"
    by (simp add: sub_records_def)
  have "fold note_vessel (v # vs) (ss, ids, d) = fold note_vessel vs (note_vessel v (ss, ids, d))"
    by simp
  also have "\<dots> =
    ((ss @ map (the \<circ> i_ssvid) (filter carries_ssvid (sub_records [v]))) @
       map (the \<circ> i_ssvid) (filter carries_ssvid (sub_records vs)),
     (ids @ map (the \<circ> v_id) (filter (truthy_str \<circ> v_id) [v])) @
       map (the \<circ> v_id) (filter (truthy_str \<circ> v_id) vs),
     (d ++ map_of (rev (map ssvid_details (filter carries_ssvid (sub_records [v]))))) ++
       map_of (rev (map ssvid_details (filter carries_ssvid (sub_records vs)))))"
    unfolding note_vessel_eq by (rule Cons.IH)
  finally show ?case
    unfolding s by (simp add: map_of_append comp_def)
qed

lemma extract_characterised:
  "extract_ssvids_from_response uniq entries =
     (if entries = [] then (None, None, Map.empty)
      else (Some (uniq (map (the \<circ> i_ssvid) (filter carries_ssvid (sub_records entries)))),
            Some (uniq (map (the \<circ> v_id) (filter (truthy_str \<circ> v_id) entries))),
            map_of (rev (map ssvid_details (filter carries_ssvid (sub_records entries))))))"
  by (simp add: extract_ssvids_from_response_def fold_note_vessel)

text \<open>
  C4, amended. Whenever \<^verbatim>\<open>get_vessel_details\<close> returns a record, the response is a
  dictionary whose entries are a list headed by a dictionary, and the record is read from
  that first entry alone and from the first sub-record of each kind: the flag and the
  vessel id prefer the registry sub-record and take the self-reported value only where the
  registry value is missing (the vessel id falling back further to the entry's own
  \<^verbatim>\<open>id\<close>), and the display name is the self-reported ship name or \<^verbatim>\<open>Unknown\<close>, never
  the registry's. \<^verbatim>\<open>extract_ssvids_from_response\<close> reads every entry and every
  sub-record: it collects the ssvid of each sub-record that carries one and the truthy
  vessel ids, and the details it keeps for an ssvid are, whole, those of the last sub-record
  carrying it in reading order; within one entry the registry details therefore replace the
  self-reported ones, and no field is filled in from another sub-record.
\<close>

theorem details_priority:
  "(\<forall>d. get_vessel_details fetch_vessel_data imo = Some d \<longrightarrow>
      (\<exists>body kvs others.
         fetch_vessel_data imo = Some (JDict body) \<and>
         dict_get body ''entries'' = JList (JDict kvs # others) \<and>
         d_imo d = imo \<and>
         d_flag d =
           prefer_registry (sub_record (dict_get kvs ''registryInfo''))
             (sub_record (dict_get kvs ''selfReportedInfo'')) ''flag'' \<and>
         d_vessel_id d =
           (let i = prefer_registry (sub_record (dict_get kvs ''registryInfo''))
                      (sub_record (dict_get kvs ''selfReportedInfo'')) ''id''
            in if \<not> truthy i \<and> truthy (dict_get kvs ''id'') then dict_get kvs ''id'' else i) \<and>
         d_name d = self_reported_name (sub_record (dict_get kvs ''selfReportedInfo'')))) \<and>
   extract_ssvids_from_response uniq entries =
     (if entries = [] then (None, None, Map.empty)
      else (Some (uniq (map (the \<circ> i_ssvid) (filter carries_ssvid (sub_records entries)))),
            Some (uniq (map (the \<circ> v_id) (filter (truthy_str \<circ> v_id) entries))),
            map_of (rev (map ssvid_details (filter carries_ssvid (sub_records entries))))))"
proof -
  have a: "\<forall>d. get_vessel_details fetch_vessel_data imo = Some d \<longrightarrow>
      (\<exists>body kvs others.
         fetch_vessel_data imo = Some (JDict body) \<and>
         dict_get body ''entries'' = JList (JDict kvs # others) \<and>
         d_imo d = imo \<and>
         d_flag d =
           prefer_registry (sub_record (dict_get kvs ''registryInfo''))
             (sub_record (dict_get kvs ''selfReportedInfo'')) ''flag'' \<and>
         d_vessel_id d =
           (let i = prefer_registry (sub_record (dict_get kvs ''registryInfo''))
                      (sub_record (dict_get kvs ''selfReportedInfo'')) ''id''
            in if \<not> truthy i \<and> truthy (dict_get kvs ''id'') then dict_get kvs ''id'' else i) \<and>
         d_name d = self_reported_name (sub_record (dict_get kvs ''selfReportedInfo'')))"
  proof (intro allI impI)
    fix d assume s: "get_vessel_details fetch_vessel_data imo = Some d"
    from get_vessel_details_Some [OF s] obtain body kvs others where
      f: "fetch_vessel_data imo = Some (JDict body)"
      and e: "dict_get body ''entries'' = JList (JDict kvs # others)"
      and d: "d = \<lparr>d_imo = imo,
          d_vessel_id =
            (let i = prefer_registry (sub_record (dict_get kvs ''registryInfo''))
                       (sub_record (dict_get kvs ''selfReportedInfo'')) ''id''
             in if \<not> truthy i \<and> truthy (dict_get kvs ''id'') then dict_get kvs ''id'' else i),
          d_name = self_reported_name (sub_record (dict_get kvs ''selfReportedInfo'')),
          d_flag = prefer_registry (sub_record (dict_get kvs ''registryInfo''))
                     (sub_record (dict_get kvs ''selfReportedInfo'')) ''flag''\<rparr>"
      by blast
    show "\<exists>body kvs others.
         fetch_vessel_data imo = Some (JDict body) \<and>
         dict_get body ''entries'' = JList (JDict kvs # others) \<and>
         d_imo d = imo \<and>
         d_flag d =
           prefer_registry (sub_record (dict_get kvs ''registryInfo''))
             (sub_record (dict_get kvs ''selfReportedInfo'')) ''flag'' \<and>
         d_vessel_id d =
           (let i = prefer_registry (sub_record (dict_get kvs ''registryInfo''))
                      (sub_record (dict_get kvs ''selfReportedInfo'')) ''id''
            in if \<not> truthy i \<and> truthy (dict_get kvs ''id'') then dict_get kvs ''id'' else i) \<and>
         d_name d = self_reported_name (sub_record (dict_get kvs ''selfReportedInfo''))"
      apply (rule exI [of _ body], rule exI [of _ kvs], rule exI [of _ others])
      using f e d by simp
  qed
  show ?thesis using a extract_characterised [of uniq entries] by blast
qed

lemma fallback_details:
  "get_vessel_details fallback_answer ''9999999'' =
     Some \<lparr>d_imo = ''9999999'', d_vessel_id = JStr ''reg-id'', d_name = JStr ''Unknown'',
           d_flag = JStr ''ESP''\<rparr>"
  by (simp add: get_vessel_details_def fallback_answer_def vessel_to_details_def dict_get_def
        dict_get_default_def fill_self_reported_def Let_def)

text \<open>
  A dictionary-shaped registry sub-record without a flag, two self-reported sub-records and
  a second entry: the vessel id is the registry's, the flag is the first self-reported
  flag, and the name is \<^verbatim>\<open>Unknown\<close>. A vessel whose two sub-records carry the same
  ssvid keeps the registry sub-record's details.
\<close>

theorem details_priority_witness:
  "get_vessel_details fallback_answer ''9999999'' =
     Some \<lparr>d_imo = ''9999999'', d_vessel_id = JStr ''reg-id'', d_name = JStr ''Unknown'',
           d_flag = JStr ''ESP''\<rparr> \<and>
   prefer_registry (Some [(''id'', JStr ''reg-id'')])
     (Some [(''id'', JStr ''self-id''), (''flag'', JStr ''ESP'')]) ''flag'' = JStr ''ESP'' \<and>
   prefer_registry (Some [(''id'', JStr ''reg-id'')])
     (Some [(''id'', JStr ''self-id''), (''flag'', JStr ''ESP'')]) ''id'' = JStr ''reg-id'' \<and>
   fst (extract_ssvids_from_response remdups [overlapping_vessel]) = Some [''663123456''] \<and>
   snd (snd (extract_ssvids_from_response remdups [overlapping_vessel])) ''663123456'' =
     Some \<lparr>dt_shipname = Some ''REGISTRY NAME'', dt_imo = Some [], dt_callsign = Some [],
           dt_flag = Some ''SEN''\<rparr>"
proof -
  let ?D = "\<lparr>d_imo = ''9999999'', d_vessel_id = JStr ''reg-id'', d_name = JStr ''Unknown'',
           d_flag = JStr ''ESP''\<rparr>"
  note th = details_priority [of fallback_answer "''9999999''" remdups "[overlapping_vessel]"]
  from th [THEN conjunct1, THEN spec, THEN mp, OF fallback_details]
  obtain body kvs others where
    f: "fallback_answer ''9999999'' = Some (JDict body)"
    and e: "dict_get body ''entries'' = JList (JDict kvs # others)"
    and fl: "d_flag ?D = prefer_registry (sub_record (dict_get kvs ''registryInfo''))
             (sub_record (dict_get kvs ''selfReportedInfo'')) ''flag''"
    and vi: "d_vessel_id ?D =
           (let i = prefer_registry (sub_record (dict_get kvs ''registryInfo''))
                      (sub_record (dict_get kvs ''selfReportedInfo'')) ''id''
            in if \<not> truthy i \<and> truthy (dict_get kvs ''id'') then dict_get kvs ''id'' else i)"
    by blast
  have b: "body = [(''entries'',
       JList [JDict [(''registryInfo'', JDict [(''id'', JStr ''reg-id'')]),
                     (''selfReportedInfo'',
                        JList [JDict [(''id'', JStr ''self-id''), (''flag'', JStr ''ESP'')],
                               JDict [(''shipname'', JStr ''SECOND NAME'')]])],
              JDict [(''id'', JStr ''other-vessel'')]])]"
    using f by (simp add: fallback_answer_def)
  have k: "kvs = [(''registryInfo'', JDict [(''id'', JStr ''reg-id'')]),
                  (''selfReportedInfo'',
                     JList [JDict [(''id'', JStr ''self-id''), (''flag'', JStr ''ESP'')],
                            JDict [(''shipname'', JStr ''SECOND NAME'')]])]"
    using e unfolding b by (simp add: dict_get_def)
  have p1: "prefer_registry (Some [(''id'', JStr ''reg-id'')])
     (Some [(''id'', JStr ''self-id''), (''flag'', JStr ''ESP'')]) ''flag'' = JStr ''ESP''"
    using fl unfolding k by (simp add: dict_get_def)
  have p2: "prefer_registry (Some [(''id'', JStr ''reg-id'')])
     (Some [(''id'', JStr ''self-id''), (''flag'', JStr ''ESP'')]) ''id'' = JStr ''reg-id''"
    by (simp add: prefer_registry_def registry_value_def dict_get_def)
  have x: "extract_ssvids_from_response remdups [overlapping_vessel] =
     (Some (remdups (map (the \<circ> i_ssvid) (filter carries_ssvid (sub_records [overlapping_vessel])))),
      Some (remdups (map (the \<circ> v_id) (filter (truthy_str \<circ> v_id) [overlapping_vessel]))),
      map_of (rev (map ssvid_details (filter carries_ssvid (sub_records [overlapping_vessel])))))"
    using th [THEN conjunct2] by simp
  have s1: "fst (extract_ssvids_from_response remdups [overlapping_vessel]) = Some [''663123456'']"
    unfolding x
    by (simp add: sub_records_def overlapping_vessel_def carries_ssvid_def truthy_str_def)
  have s2: "snd (snd (extract_ssvids_from_response remdups [overlapping_vessel])) ''663123456'' =
     Some \<lparr>dt_shipname = Some ''REGISTRY NAME'', dt_imo = Some [], dt_callsign = Some [],
           dt_flag = Some ''SEN''\<rparr>"
    unfolding x
    by (simp add: sub_records_def overlapping_vessel_def carries_ssvid_def truthy_str_def
          ssvid_details_def detail_of_def get_or_empty_def)
  from fallback_details p1 p2 s1 s2 show ?thesis by (intro conjI)
qed

section \<open>Proofs: the resolution cascade\<close>

text \<open>
  A stage sets its source whenever it records identifiers, so a stage that returns an
  identifier returns one of its own source names with it.
\<close>

lemma attempt_source:
  assumes "st_ssvids st \<noteq> [] \<longrightarrow> st_source st \<in> Some ` T" and "tag \<in> T"
  shows "st_ssvids (attempt http uniq prm tag st) \<noteq> [] \<longrightarrow>
         st_source (attempt http uniq prm tag st) \<in> Some ` T"
  using assms by (auto simp: attempt_def split: option.splits prod.splits)

lemma initial_source: "st_ssvids initial_state \<noteq> [] \<longrightarrow> st_source initial_state \<in> Some ` T"
  by (simp add: initial_state_def)

lemma finish_fst: "fst (finish st) \<noteq> None \<Longrightarrow> st_ssvids st \<noteq> []"
  by (cases "st_ssvids st") (simp_all add: finish_def first_or_none_def)

lemma finish_source: "fst (snd (snd (finish st))) = st_source st"
  by (simp add: finish_def)

lemma truthy_str_not_None: "truthy_str v \<Longrightarrow> v \<noteq> None"
  by (cases v) (simp_all add: truthy_str_def)

lemma fst_if_pair: "fst (if c then (a, b) else (a', b')) = (if c then a else a')"
  by simp

lemma snd_if_pair: "snd (if c then (a, b) else (a', b')) = (if c then b else b')"
  by simp

lemma advanced_state:
  "\<exists>st. fst (search_vessel_advanced http uniq imo name) = finish st \<and>
        (st_ssvids st \<noteq> [] \<longrightarrow> st_source st \<in> Some ` advanced_tags)"
proof -
  let ?I = "\<lambda>st. st_ssvids st \<noteq> [] \<longrightarrow> st_source st \<in> Some ` advanced_tags"
  let ?p1 = "Where_clause (''imo = '' @ quoted imo)"
  let ?p2 = "Where_clause (''shipname = '' @ quoted name)"
  let ?p3 = "Where_clause (''shipname LIKE '' @ quoted (''%'' @ name @ ''%''))"
  define st1 where "st1 = (if imo \<noteq> [] then attempt http uniq ?p1 ''GFW-IMO-advanced'' initial_state
                           else initial_state)"
  define st2 where "st2 = (if st_ssvids st1 = [] \<and> name \<noteq> []
                           then attempt http uniq ?p2 ''GFW-name-advanced'' st1 else st1)"
  define st3 where "st3 = (if st_ssvids st2 = [] \<and> name \<noteq> []
                           then attempt http uniq ?p3 ''GFW-name-partial'' st2 else st2)"
  have i1: "?I st1" unfolding st1_def
    using attempt_source [OF initial_source, of "''GFW-IMO-advanced''" advanced_tags]
      initial_source [of advanced_tags]
    by (simp add: advanced_tags_def)
  have i2: "?I st2" unfolding st2_def
    using attempt_source [OF i1, of "''GFW-name-advanced''"] i1
    by (simp add: advanced_tags_def)
  have i3: "?I st3" unfolding st3_def
    using attempt_source [OF i2, of "''GFW-name-partial''"] i2
    by (simp add: advanced_tags_def)
  have "fst (search_vessel_advanced http uniq imo name) = finish st3"
    unfolding search_vessel_advanced_def Let_def split_beta fst_if_pair snd_if_pair st1_def st2_def st3_def
    by simp
  then show ?thesis using i3 by blast
qed

lemma advanced_source:
  "truthy_str (fst (fst (search_vessel_advanced http uniq imo name))) \<Longrightarrow>
   fst (snd (snd (fst (search_vessel_advanced http uniq imo name)))) \<in> Some ` advanced_tags"
proof -
  assume t: "truthy_str (fst (fst (search_vessel_advanced http uniq imo name)))"
  obtain st where st: "fst (search_vessel_advanced http uniq imo name) = finish st"
    and i: "st_ssvids st \<noteq> [] \<longrightarrow> st_source st \<in> Some ` advanced_tags"
    using advanced_state by blast
  have "fst (finish st) \<noteq> None" using t st by (simp add: truthy_str_not_None)
  then have "st_ssvids st \<noteq> []" by (rule finish_fst)
  then show ?thesis using i st by (simp add: finish_source)
qed

lemma basic_state:
  "\<exists>st. fst (search_vessel_basic http uniq imo name) = finish st \<and>
        (st_ssvids st \<noteq> [] \<longrightarrow> st_source st \<in> Some ` basic_tags)"
proof -
  let ?I = "\<lambda>st. st_ssvids st \<noteq> [] \<longrightarrow> st_source st \<in> Some ` basic_tags"
  define st1 where "st1 = (if imo \<noteq> [] then attempt http uniq (Query imo) ''GFW-IMO-basic'' initial_state
                           else initial_state)"
  define st2 where "st2 = (if st_ssvids st1 = [] \<and> name \<noteq> []
                           then attempt http uniq (Query name) ''GFW-name-basic'' st1 else st1)"
  have i1: "?I st1" unfolding st1_def
    using attempt_source [OF initial_source, of "''GFW-IMO-basic''" basic_tags]
      initial_source [of basic_tags]
    by (simp add: basic_tags_def)
  have i2: "?I st2" unfolding st2_def
    using attempt_source [OF i1, of "''GFW-name-basic''"] i1
    by (simp add: basic_tags_def)
  have "fst (search_vessel_basic http uniq imo name) = finish st2"
    unfolding search_vessel_basic_def Let_def split_beta fst_if_pair snd_if_pair st1_def st2_def
    by simp
  then show ?thesis using i2 by blast
qed

lemma basic_source:
  "truthy_str (fst (fst (search_vessel_basic http uniq imo name))) \<Longrightarrow>
   fst (snd (snd (fst (search_vessel_basic http uniq imo name)))) \<in> Some ` basic_tags"
proof -
  assume t: "truthy_str (fst (fst (search_vessel_basic http uniq imo name)))"
  obtain st where st: "fst (search_vessel_basic http uniq imo name) = finish st"
    and i: "st_ssvids st \<noteq> [] \<longrightarrow> st_source st \<in> Some ` basic_tags"
    using basic_state by blast
  have "fst (finish st) \<noteq> None" using t st by (simp add: truthy_str_not_None)
  then have "st_ssvids st \<noteq> []" by (rule finish_fst)
  then show ?thesis using i st by (simp add: finish_source)
qed

lemma combined_source:
  "truthy_str (fst (fst (search_vessel_combined http uniq imo name))) \<Longrightarrow>
   fst (snd (snd (fst (search_vessel_combined http uniq imo name)))) = Some ''GFW-combined''"
  by (auto simp: search_vessel_combined_def Let_def nothing_def truthy_str_def
           split: if_splits option.splits prod.splits list.splits)

lemma combined_trace:
  "\<exists>t. snd (search_vessel_combined http uniq imo name) = Invoke Combined # t \<and>
       (\<forall>c \<in> set t. call_stage c = Combined)"
  by (simp add: search_vessel_combined_def Let_def)

lemma advanced_trace:
  "\<exists>t. snd (search_vessel_advanced http uniq imo name) = Invoke Advanced # t \<and>
       (\<forall>c \<in> set t. call_stage c = Advanced)"
  unfolding search_vessel_advanced_def Let_def split_beta fst_if_pair snd_if_pair
  by (auto split: if_splits)

lemma basic_trace:
  "\<exists>t. snd (search_vessel_basic http uniq imo name) = Invoke Basic # t \<and>
       (\<forall>c \<in> set t. call_stage c = Basic)"
  unfolding search_vessel_basic_def Let_def split_beta fst_if_pair snd_if_pair
  by (auto split: if_splits)

lemma from_local_db_miss: "local_db imo = None \<Longrightarrow> from_local_db local_db imo = nothing"
  by (simp add: from_local_db_def)

lemma nothing_falsy: "\<not> truthy_str (fst nothing)"
  by (simp add: nothing_def truthy_str_def)

lemma sorted_rank_const:
  "\<forall>c \<in> set t. call_stage c = s \<Longrightarrow> sorted (map (stage_rank \<circ> call_stage) t)"
  by (induction t) auto

lemma sorted_rank_two:
  assumes "\<forall>c \<in> set t1. call_stage c = s1" "\<forall>c \<in> set t2. call_stage c = s2"
    "stage_rank s1 \<le> stage_rank s2"
  shows "sorted (map (stage_rank \<circ> call_stage) (t1 @ t2))"
  using assms sorted_rank_const [of t1 s1] sorted_rank_const [of t2 s2]
  by (auto simp: sorted_append)

lemma resolve_miss_cases:
  assumes "local_db imo = None"
  shows "resolve http uniq local_db imo name =
     (if truthy_str (fst (fst (search_vessel_combined http uniq imo name)))
      then (fst (search_vessel_combined http uniq imo name),
            snd (search_vessel_combined http uniq imo name))
      else if truthy_str (fst (fst (search_vessel_advanced http uniq imo name)))
      then (fst (search_vessel_advanced http uniq imo name),
            snd (search_vessel_combined http uniq imo name) @
            snd (search_vessel_advanced http uniq imo name))
      else (fst (search_vessel_basic http uniq imo name),
            snd (search_vessel_combined http uniq imo name) @
            snd (search_vessel_advanced http uniq imo name) @
            snd (search_vessel_basic http uniq imo name)))"
  using assms nothing_falsy
  by (simp add: resolve_def from_local_db_miss Let_def split_beta)

text \<open>
  C3. When the local database holds an entry for the primary id with a truthy ssvid, the
  lookup returns it with source \<^verbatim>\<open>local-db\<close> and an empty trace: no stage is called and
  no request is sent. When the primary id is absent from the local database, the trace runs
  through the stages in the order combined, advanced, basic; the combined stage is always
  called; the advanced stage is called exactly when the combined stage returned no ssvid, and
  the basic stage exactly when neither did. The result is that of the first stage that
  returned an ssvid, and its source is one of that stage's source names: in particular, when
  the combined stage finds nothing and the advanced stage finds a match, the source is one
  of the advanced stage's.
\<close>

theorem cascade_order:
  "(\<forall>e sv. local_db imo = Some e \<and> e_ssvid e = Some sv \<and> truthy_str sv \<longrightarrow>
      resolve http uniq local_db imo name =
        ((sv, (case e_vessel_id e of None \<Rightarrow> None | Some v \<Rightarrow> v), Some ''local-db'', Map.empty),
         [])) \<and>
   (local_db imo = None \<longrightarrow>
      (let rc = fst (search_vessel_combined http uniq imo name);
           ra = fst (search_vessel_advanced http uniq imo name);
           rb = fst (search_vessel_basic http uniq imo name);
           r = fst (resolve http uniq local_db imo name);
           t = snd (resolve http uniq local_db imo name)
       in sorted (map (stage_rank \<circ> call_stage) t) \<and>
          Invoke Combined \<in> set t \<and>
          (Invoke Advanced \<in> set t \<longleftrightarrow> \<not> truthy_str (res_ssvid rc)) \<and>
          (Invoke Basic \<in> set t \<longleftrightarrow> \<not> truthy_str (res_ssvid rc) \<and> \<not> truthy_str (res_ssvid ra)) \<and>
          (truthy_str (res_ssvid rc) \<longrightarrow> r = rc \<and> res_source r = Some ''GFW-combined'') \<and>
          (\<not> truthy_str (res_ssvid rc) \<and> truthy_str (res_ssvid ra) \<longrightarrow>
             r = ra \<and> res_source r \<in> Some ` advanced_tags) \<and>
          (\<not> truthy_str (res_ssvid rc) \<and> \<not> truthy_str (res_ssvid ra) \<longrightarrow>
             r = rb \<and> (truthy_str (res_ssvid rb) \<longrightarrow> res_source r \<in> Some ` basic_tags))))"
proof -
  have hit: "\<forall>e sv. local_db imo = Some e \<and> e_ssvid e = Some sv \<and> truthy_str sv \<longrightarrow>
      resolve http uniq local_db imo name =
        ((sv, (case e_vessel_id e of None \<Rightarrow> None | Some v \<Rightarrow> v), Some ''local-db'', Map.empty),
         [])"
    by (simp add: resolve_def from_local_db_def Let_def)
  have miss: "?thesis" if m: "local_db imo = None"
  proof -
    obtain tc where tc: "snd (search_vessel_combined http uniq imo name) = Invoke Combined # tc"
      and tc': "\<forall>c \<in> set tc. call_stage c = Combined"
      using combined_trace by blast
    obtain ta where ta: "snd (search_vessel_advanced http uniq imo name) = Invoke Advanced # ta"
      and ta': "\<forall>c \<in> set ta. call_stage c = Advanced"
      using advanced_trace by blast
    obtain tb where tb: "snd (search_vessel_basic http uniq imo name) = Invoke Basic # tb"
      and tb': "\<forall>c \<in> set tb. call_stage c = Basic"
      using basic_trace by blast
    have c_all: "\<forall>c \<in> set (Invoke Combined # tc). call_stage c = Combined" using tc' by simp
    have a_all: "\<forall>c \<in> set (Invoke Advanced # ta). call_stage c = Advanced" using ta' by simp
    have b_all: "\<forall>c \<in> set (Invoke Basic # tb). call_stage c = Basic" using tb' by simp
    have nc: "Invoke Advanced \<notin> set tc" "Invoke Basic \<notin> set tc" using tc' by auto
    have na: "Invoke Basic \<notin> set ta" "Invoke Combined \<notin> set ta" using ta' by auto
    have s1: "sorted (map (stage_rank \<circ> call_stage) (Invoke Combined # tc))"
      using sorted_rank_const [OF c_all] .
    have s2: "sorted (map (stage_rank \<circ> call_stage) ((Invoke Combined # tc) @ (Invoke Advanced # ta)))"
      using sorted_rank_two [OF c_all a_all] by simp
    have ab: "\<forall>c \<in> set (Invoke Advanced # ta). stage_rank (call_stage c) = 1" using a_all by simp
    have bb: "\<forall>c \<in> set (Invoke Basic # tb). stage_rank (call_stage c) = 2" using b_all by simp
    have cb: "\<forall>c \<in> set (Invoke Combined # tc). stage_rank (call_stage c) = 0" using c_all by simp
    have s3: "sorted (map (stage_rank \<circ> call_stage)
                ((Invoke Combined # tc) @ (Invoke Advanced # ta) @ (Invoke Basic # tb)))"
      using s2 sorted_rank_const [OF b_all] ab bb cb
      by (auto simp: sorted_append)
    show ?thesis
    proof (cases "truthy_str (fst (fst (search_vessel_combined http uniq imo name)))")
      case True
      then show ?thesis
        using hit m s1 nc tc combined_source [OF True]
        by (simp add: resolve_miss_cases Let_def res_ssvid_def res_source_def)
    next
      case False
      note c = False
      show ?thesis
      proof (cases "truthy_str (fst (fst (search_vessel_advanced http uniq imo name)))")
        case True
        then show ?thesis
          using hit m c s2 nc na tc ta advanced_source [OF True]
          by (simp add: resolve_miss_cases Let_def res_ssvid_def res_source_def)
      next
        case False
        then show ?thesis
          using hit m c s3 nc na tc ta tb basic_source [of http uniq imo name]
          by (simp add: resolve_miss_cases Let_def res_ssvid_def res_source_def)
      qed
    qed
  qed
  show ?thesis
  proof (cases "local_db imo")
    case None
    then show ?thesis by (rule miss)
  next
    case (Some e)
    then show ?thesis using hit by simp
  qed
qed

lemma extract_registered:
  "extract_ssvids_from_response remdups [registered_vessel] =
     (Some [''663123456''], Some [''abc123''], [''663123456'' \<mapsto> registered_detail])"
  by (simp add: extract_ssvids_from_response_def note_vessel_def note_info_def registered_vessel_def
        no_info_def detail_of_def get_or_empty_def registered_detail_def truthy_str_def)

lemma extract_none:
  "extract_ssvids_from_response uniq [] = (None, None, Map.empty)"
  by (simp add: extract_ssvids_from_response_def)

lemma combined_eval:
  "search_vessel_combined advanced_only remdups ''9999999'' ''TEST VESSEL'' =
     (nothing,
      [Invoke Combined,
       Request Combined (Where_clause
         (''(imo = '' @ quoted ''9999999'' @ '' AND shipname = '' @ quoted ''TEST VESSEL'' @ '')''))])"
  by (simp add: search_vessel_combined_def advanced_only_def quoted_def extract_none)

lemma advanced_eval:
  "search_vessel_advanced advanced_only remdups ''9999999'' ''TEST VESSEL'' =
     ((Some ''663123456'', Some ''abc123'', Some ''GFW-IMO-advanced'',
       [''663123456'' \<mapsto> registered_detail]),
      [Invoke Advanced, Request Advanced (Where_clause (''imo = '' @ quoted ''9999999''))])"
  by (simp add: search_vessel_advanced_def advanced_only_def attempt_def extract_registered
        initial_state_def finish_def first_or_none_def)

lemma resolve_eval:
  "resolve advanced_only remdups Map.empty ''9999999'' ''TEST VESSEL'' =
     ((Some ''663123456'', Some ''abc123'', Some ''GFW-IMO-advanced'',
       [''663123456'' \<mapsto> registered_detail]),
      [Invoke Combined,
       Request Combined (Where_clause
         (''(imo = '' @ quoted ''9999999'' @ '' AND shipname = '' @ quoted ''TEST VESSEL'' @ '')'')),
       Invoke Advanced, Request Advanced (Where_clause (''imo = '' @ quoted ''9999999''))])"
  by (simp add: resolve_def from_local_db_def combined_eval advanced_eval nothing_def
        truthy_str_def)

text \<open>
  A cached vessel is returned without any call; with an empty local database and a registry
  that answers only the advanced stage's exact \<^verbatim>\<open>imo\<close> clause, the source is
  \<^verbatim>\<open>GFW-IMO-advanced\<close> and the basic stage is never called.
\<close>

theorem cascade_order_witness:
  "resolve advanced_only remdups [''9999999'' \<mapsto> cached_entry] ''9999999'' ''TEST VESSEL'' =
     ((Some ''663123456'', Some ''abc123'', Some ''local-db'', Map.empty), []) \<and>
   \<not> truthy_str (res_ssvid (fst (search_vessel_combined advanced_only remdups ''9999999'' ''TEST VESSEL''))) \<and>
   truthy_str (res_ssvid (fst (search_vessel_advanced advanced_only remdups ''9999999'' ''TEST VESSEL''))) \<and>
   res_source (fst (resolve advanced_only remdups Map.empty ''9999999'' ''TEST VESSEL''))
     = Some ''GFW-IMO-advanced'' \<and>
   Invoke Basic \<notin> set (snd (resolve advanced_only remdups Map.empty ''9999999'' ''TEST VESSEL''))"
proof -
  note hit = cascade_order [of "[''9999999'' \<mapsto> cached_entry]" "''9999999''" advanced_only remdups
      "''TEST VESSEL''", THEN conjunct1, THEN spec, THEN spec, THEN mp]
  note miss = cascade_order [of Map.empty "''9999999''" advanced_only remdups "''TEST VESSEL''",
      THEN conjunct2, THEN mp]
  have c: "\<not> truthy_str (res_ssvid (fst (search_vessel_combined advanced_only remdups ''9999999'' ''TEST VESSEL'')))"
    by (simp add: combined_eval res_ssvid_def nothing_def truthy_str_def)
  have a: "truthy_str (res_ssvid (fst (search_vessel_advanced advanced_only remdups ''9999999'' ''TEST VESSEL'')))"
    by (simp add: advanced_eval res_ssvid_def truthy_str_def)
  have h: "resolve advanced_only remdups [''9999999'' \<mapsto> cached_entry] ''9999999'' ''TEST VESSEL'' =
     ((Some ''663123456'', Some ''abc123'', Some ''local-db'', Map.empty), [])"
    using hit [of cached_entry "Some ''663123456''"]
    by (simp add: cached_entry_def truthy_str_def)
  have m: "(Map.empty :: string \<rightharpoonup> entry) ''9999999'' = None" by simp
  have s: "res_source (fst (resolve advanced_only remdups Map.empty ''9999999'' ''TEST VESSEL''))
     = Some ''GFW-IMO-advanced''"
    by (simp add: resolve_eval res_source_def)
  have b: "Invoke Basic \<notin> set (snd (resolve advanced_only remdups Map.empty ''9999999'' ''TEST VESSEL''))"
    using miss [OF m] c a by (simp add: Let_def)
  show ?thesis using h c a s b by simp
qed

section \<open>Proofs: the local database\<close>

lemma process_row_first:
  "fst (snd (process_row advanced_only remdups Map.empty ''9999999'' ''TEST VESSEL'')) =
     [''9999999'' \<mapsto> cached_entry]"
  by (simp add: process_row_def resolve_eval store_def truthy_str_def empty_entry_def
        cached_entry_def Let_def)

lemma resolve_hit_eval:
  "resolve advanced_only remdups [''9999999'' \<mapsto> cached_entry] ''9999999'' ''RENAMED VESSEL'' =
     ((Some ''663123456'', Some ''abc123'', Some ''local-db'', Map.empty), [])"
  by (simp add: resolve_def from_local_db_def cached_entry_def truthy_str_def)

lemma process_row_second:
  "fst (snd (process_row advanced_only remdups [''9999999'' \<mapsto> cached_entry]
               ''9999999'' ''RENAMED VESSEL'')) ''9999999'' =
     Some \<lparr>e_name = Some (Some ''RENAMED VESSEL''), e_ssvid = Some (Some ''663123456''),
           e_vessel_id = Some (Some ''abc123''), e_source = Some (Some ''local-db''),
           e_details = Some registered_detail\<rparr>"
  apply (simp add: process_row_def resolve_hit_eval)
  apply (simp add: store_def truthy_str_def cached_entry_def Let_def)
  done

lemma store_fresh:
  "store Map.empty ''9999999'' ''RENAMED VESSEL''
       (Some ''663123456'', Some ''abc123'', Some ''local-db'', Map.empty) ''9999999'' =
     Some \<lparr>e_name = Some (Some ''RENAMED VESSEL''), e_ssvid = Some (Some ''663123456''),
           e_vessel_id = Some (Some ''abc123''), e_source = Some (Some ''local-db''),
           e_details = None\<rparr>"
  by (simp add: store_def truthy_str_def empty_entry_def Let_def)

text \<open>
  C8 fails as stated. A first resolution writes the entry of \<^verbatim>\<open>9999999\<close> with its
  details. A second resolution of the same id, under another name, is answered from the
  local database and carries no details; the entry is then updated in place: name and source
  change, and the details of the first resolution stay. Written into an empty database, the
  same result gives an entry without details, so the stored value depends on the entry that
  was there.
\<close>

theorem store_keeps_old_details:
  "fst (snd (process_row advanced_only remdups Map.empty ''9999999'' ''TEST VESSEL'')) =
     [''9999999'' \<mapsto> cached_entry] \<and>
   resolve advanced_only remdups [''9999999'' \<mapsto> cached_entry] ''9999999'' ''RENAMED VESSEL'' =
     ((Some ''663123456'', Some ''abc123'', Some ''local-db'', Map.empty), []) \<and>
   fst (snd (process_row advanced_only remdups [''9999999'' \<mapsto> cached_entry]
               ''9999999'' ''RENAMED VESSEL'')) ''9999999'' =
     Some \<lparr>e_name = Some (Some ''RENAMED VESSEL''), e_ssvid = Some (Some ''663123456''),
           e_vessel_id = Some (Some ''abc123''), e_source = Some (Some ''local-db''),
           e_details = Some registered_detail\<rparr> \<and>
   store Map.empty ''9999999'' ''RENAMED VESSEL''
       (Some ''663123456'', Some ''abc123'', Some ''local-db'', Map.empty) ''9999999'' =
     Some \<lparr>e_name = Some (Some ''RENAMED VESSEL''), e_ssvid = Some (Some ''663123456''),
           e_vessel_id = Some (Some ''abc123''), e_source = Some (Some ''local-db''),
           e_details = None\<rparr>"
  using process_row_first resolve_hit_eval process_row_second store_fresh
  by (intro conjI) assumption+

text \<open>
  C8, amended. When a resolution returns a truthy ssvid, the entry of the primary id is
  created if absent and updated field by field: name, ssvid, vessel id and source are
  overwritten unconditionally; the details are overwritten only when the resolution returned
  details for that ssvid, and are otherwise those of the existing entry. When the resolution
  returns no ssvid the local database is unchanged, and the entries of all other keys are
  never touched.
\<close>

theorem store_updates_fields:
  "(truthy_str ssvid \<longrightarrow>
      (\<exists>e'. store local_db imo vessel_name (ssvid, vessel_id, source, details) imo = Some e' \<and>
            e_name e' = Some (Some vessel_name) \<and> e_ssvid e' = Some ssvid \<and>
            e_vessel_id e' = Some vessel_id \<and> e_source e' = Some source \<and>
            e_details e' =
              (case details (the ssvid) of
                 Some d \<Rightarrow> Some d
               | None \<Rightarrow> (case local_db imo of None \<Rightarrow> None | Some e \<Rightarrow> e_details e)))) \<and>
   (\<not> truthy_str ssvid \<longrightarrow>
      store local_db imo vessel_name (ssvid, vessel_id, source, details) = local_db) \<and>
   (\<forall>k. k \<noteq> imo \<longrightarrow>
      store local_db imo vessel_name (ssvid, vessel_id, source, details) k = local_db k)"
  by (simp add: store_def Let_def empty_entry_def split: option.splits)

text \<open>
  A cache hit under a new name: the name is replaced, the details are kept, and another key
  stays absent.
\<close>

theorem store_updates_fields_witness:
  "truthy_str (Some ''663123456'') \<and>
   e_details (the (store [''9999999'' \<mapsto> cached_entry] ''9999999'' ''RENAMED VESSEL''
       (Some ''663123456'', Some ''abc123'', Some ''local-db'', Map.empty) ''9999999''))
     = Some registered_detail \<and>
   e_name (the (store [''9999999'' \<mapsto> cached_entry] ''9999999'' ''RENAMED VESSEL''
       (Some ''663123456'', Some ''abc123'', Some ''local-db'', Map.empty) ''9999999''))
     = Some (Some ''RENAMED VESSEL'') \<and>
   store [''9999999'' \<mapsto> cached_entry] ''9999999'' ''RENAMED VESSEL''
       (Some ''663123456'', Some ''abc123'', Some ''local-db'', Map.empty) ''1234567'' = None"
proof -
  have t: "truthy_str (Some ''663123456'')" by (simp add: truthy_str_def)
  note th = store_updates_fields [of "Some ''663123456''" "[''9999999'' \<mapsto> cached_entry]"
      "''9999999''" "''RENAMED VESSEL''" "Some ''abc123''" "Some ''local-db''" Map.empty]
  from th [THEN conjunct1, THEN mp, OF t]
  obtain e' where
    e: "store [''9999999'' \<mapsto> cached_entry] ''9999999'' ''RENAMED VESSEL''
          (Some ''663123456'', Some ''abc123'', Some ''local-db'', Map.empty) ''9999999'' = Some e'"
    and n: "e_name e' = Some (Some ''RENAMED VESSEL'')"
    and d: "e_details e' =
              (case (Map.empty :: string \<rightharpoonup> detail) (the (Some ''663123456'')) of
                 Some d \<Rightarrow> Some d
               | None \<Rightarrow> (case [''9999999'' \<mapsto> cached_entry] ''9999999'' of
                            None \<Rightarrow> None | Some e \<Rightarrow> e_details e))"
    by blast
  have d': "e_details e' = Some registered_detail" using d by (simp add: cached_entry_def)
  have k: "store [''9999999'' \<mapsto> cached_entry] ''9999999'' ''RENAMED VESSEL''
       (Some ''663123456'', Some ''abc123'', Some ''local-db'', Map.empty) ''1234567'' = None"
    using th [THEN conjunct2, THEN conjunct2, THEN spec, of "''1234567''"] by simp
  show ?thesis using t e n d' k by simp
qed

end
